theory Spec2Isabelle
  imports Main "HOL-Library.AList" "HOL-Library.DAList"
begin

section \<open>Values, rows and errors\<close>

text \<open>
  The factory of \<^verbatim>\<open>crud-factory.ts\<close> (\<^verbatim>\<open>src/unnamed/part_000\<close>) is generic in the row
  type; rows, form data and cached results are values of type \<^verbatim>\<open>any\<close>. They are modelled
  by a small universe of JavaScript values. A row is an object: an association list from
  column names to values, read with \<open>col\<close> (an absent column reads as SQL NULL).
\<close>

datatype jsval = JNull | JBool bool | JNum int | JStr string | JObj "(string \<times> jsval) list"

type_synonym row = "(string \<times> jsval) list"

text \<open>JavaScript truthiness, as tested by \<^verbatim>\<open>if (cached)\<close>, \<^verbatim>\<open>if (idempotencyKey)\<close>,
  \<^verbatim>\<open>if (queryOptions?.limit)\<close>.\<close>

fun truthy :: "jsval \<Rightarrow> bool" where
  "truthy JNull = False"
| "truthy (JBool b) = b"
| "truthy (JNum n) = (n \<noteq> 0)"
| "truthy (JStr s) = (s \<noteq> [])"
| "truthy (JObj r) = True"

definition col :: "row \<Rightarrow> string \<Rightarrow> jsval" where
  "col r c = (case map_of r c of None \<Rightarrow> JNull | Some v \<Rightarrow> v)"

text \<open>
  Everything an operation can throw. \<open>NotAuthenticated\<close> is \<^verbatim>\<open>new Error('Not authenticated')\<close>,
  \<open>UnsupportedOperation t\<close> is \<^verbatim>\<open>new Error(`Table ${t} does not support soft delete`)\<close>,
  \<open>ValidationError\<close> is the schema's rejection with its issue list, \<open>NotFound\<close> is the error
  the storage client reports when \<^verbatim>\<open>.single()\<close> does not find exactly one row, \<open>HookError\<close>
  is whatever a lifecycle hook throws.
\<close>

datatype error =
    NotAuthenticated
  | UnsupportedOperation string
  | ValidationError "string list"
  | NotFound
  | HookError string

section \<open>Idempotency cache\<close>

text \<open>
  \<^verbatim>\<open>const idempotencyCache = new Map<string, { result: any; timestamp: number }>()\<close> is a
  module-level constant. A JavaScript \<^verbatim>\<open>Map\<close> has one entry per key and keeps insertion order:
  an association list with distinct keys. \<^verbatim>\<open>Date.now()\<close> is an input of the model: every
  reading of the clock is a parameter.
\<close>

record cache_entry =
  result :: jsval
  timestamp :: int

type_synonym cache = "(string, cache_entry) alist"

definition CACHE_TTL_MS :: int where
  "CACHE_TTL_MS = 5 * 60 * 1000"

text \<open>The loop of \<^verbatim>\<open>cleanupExpiredCache\<close>: it walks the entries and deletes, from the map,
  the key of every entry with \<^verbatim>\<open>now - entry.timestamp > CACHE_TTL_MS\<close>. Deleting the entry
  under the cursor does not disturb the iteration of a \<^verbatim>\<open>Map\<close>, so the walk visits the
  entries that were there when it began.\<close>

fun cleanup_loop :: "int \<Rightarrow> (string \<times> cache_entry) list \<Rightarrow> cache \<Rightarrow> cache" where
  "cleanup_loop now [] m = m"
| "cleanup_loop now ((key, entry) # rest) m =
     cleanup_loop now rest
       (if now - timestamp entry > CACHE_TTL_MS then DAList.delete key m else m)"

definition cleanupExpiredCache :: "int \<Rightarrow> cache \<Rightarrow> cache" where
  "cleanupExpiredCache now m = cleanup_loop now (DAList.impl_of m) m"

text \<open>\<^verbatim>\<open>getCachedResult(key)\<close>: \<open>now1\<close> is the clock read by the cleanup, \<open>now2\<close> the clock
  read by the test of the entry. The result \<open>JNull\<close> is the \<^verbatim>\<open>null\<close> of a miss.\<close>

definition getCachedResult :: "int \<Rightarrow> int \<Rightarrow> string \<Rightarrow> cache \<Rightarrow> jsval \<times> cache" where
  "getCachedResult now1 now2 key m =
     (let m' = cleanupExpiredCache now1 m in
      case DAList.lookup m' key of
        Some entry \<Rightarrow>
          if now2 - timestamp entry \<le> CACHE_TTL_MS then (result entry, m') else (JNull, m')
      | None \<Rightarrow> (JNull, m'))"

definition setCachedResult :: "int \<Rightarrow> string \<Rightarrow> jsval \<Rightarrow> cache \<Rightarrow> cache" where
  "setCachedResult now key r m = DAList.update key \<lparr>result = r, timestamp = now\<rparr> m"

section \<open>The collaborators: session, storage, hooks, revalidation\<close>

text \<open>
  What an operation does besides computing its result is recorded in a trace: schema
  validations, hook invocations, calls of the storage client (with the table) and the
  revalidation notify.
\<close>

datatype event =
    EvValidate
  | EvHook string
  | EvSelect string
  | EvInsert string
  | EvUpdate string
  | EvDelete string
  | EvRevalidate "string list"

text \<open>
  The world an operation runs in: the module-level cache, the tables of the data store, the
  rule by which the store completes an inserted row (generated id, column defaults), the
  identity the auth provider reports for the request's client and for the admin client,
  whether \<^verbatim>\<open>NODE_ENV\<close> is \<^verbatim>\<open>'development'\<close>, and the trace.

  The storage client is not code of the repository. It is modelled as an in-memory store
  that applies exactly the filters of a query; its only error is the one of \<^verbatim>\<open>.single()\<close>;
  row-level security and transport failures are outside the model.
\<close>

record world =
  idempotencyCache :: cache
  tables :: "string \<Rightarrow> row list"
  db_defaults :: "string \<Rightarrow> row list \<Rightarrow> row \<Rightarrow> row"
  session_user :: "string option"
  admin_user :: "string option"
  development :: bool
  trace :: "event list"

definition log_event :: "event \<Rightarrow> world \<Rightarrow> world" where
  "log_event e w = w\<lparr>trace := trace w @ [e]\<rparr>"

subsection \<open>Queries\<close>

text \<open>The query builder of the storage client: \<^verbatim>\<open>.eq\<close>, \<^verbatim>\<open>.is(c, null)\<close>, \<^verbatim>\<open>.order\<close>,
  \<^verbatim>\<open>.limit\<close> and \<^verbatim>\<open>.range\<close> each return the query with one more clause. \<^verbatim>\<open>.limit(n)\<close> sets
  the limit; \<^verbatim>\<open>.range(from, to)\<close> sets the offset to \<open>from\<close> and the limit to
  \<open>to - from + 1\<close>.\<close>

record query =
  q_table :: string
  q_columns :: string
  q_eq :: "(string \<times> jsval) list"
  q_is_null :: "string list"
  q_order :: "(string \<times> bool) option"
  q_limit :: "nat option"
  q_offset :: "nat option"

definition from_select :: "string \<Rightarrow> string \<Rightarrow> query" where
  "from_select t cols =
     \<lparr>q_table = t, q_columns = cols, q_eq = [], q_is_null = [], q_order = None,
      q_limit = None, q_offset = None\<rparr>"

definition eq_filter :: "string \<Rightarrow> jsval \<Rightarrow> query \<Rightarrow> query" where
  "eq_filter c v q = q\<lparr>q_eq := q_eq q @ [(c, v)]\<rparr>"

definition is_null :: "string \<Rightarrow> query \<Rightarrow> query" where
  "is_null c q = q\<lparr>q_is_null := q_is_null q @ [c]\<rparr>"

definition order_by :: "string \<Rightarrow> bool \<Rightarrow> query \<Rightarrow> query" where
  "order_by c ascending q = q\<lparr>q_order := Some (c, ascending)\<rparr>"

definition limit_to :: "nat \<Rightarrow> query \<Rightarrow> query" where
  "limit_to n q = q\<lparr>q_limit := Some n\<rparr>"

definition range_q :: "nat \<Rightarrow> nat \<Rightarrow> query \<Rightarrow> query" where
  "range_q from to q = q\<lparr>q_offset := Some from, q_limit := Some (to - from + 1)\<rparr>"

text \<open>A row satisfies the filters when every \<^verbatim>\<open>.eq(c, v)\<close> column holds the non-null value
  \<open>v\<close> and every \<^verbatim>\<open>.is(c, null)\<close> column is null.\<close>

definition matches :: "(string \<times> jsval) list \<Rightarrow> string list \<Rightarrow> row \<Rightarrow> bool" where
  "matches eqs nulls r =
     (list_all (\<lambda>(c, v). v \<noteq> JNull \<and> col r c = v) eqs \<and> list_all (\<lambda>c. col r c = JNull) nulls)"

text \<open>Ordering of column values: numbers by value, strings by character code, nulls last
  in ascending order. Rows are ordered by a stable insertion sort.\<close>

fun str_le :: "string \<Rightarrow> string \<Rightarrow> bool" where
  "str_le [] t = True"
| "str_le (a # s) [] = False"
| "str_le (a # s) (b # t) =
     ((of_char a :: nat) < of_char b \<or> (a = b \<and> str_le s t))"

fun val_le :: "jsval \<Rightarrow> jsval \<Rightarrow> bool" where
  "val_le (JNum a) (JNum b) = (a \<le> b)"
| "val_le (JStr a) (JStr b) = str_le a b"
| "val_le (JBool a) (JBool b) = (a \<longrightarrow> b)"
| "val_le JNull JNull = True"
| "val_le JNull v = False"
| "val_le u v = True"

definition row_le :: "string \<Rightarrow> bool \<Rightarrow> row \<Rightarrow> row \<Rightarrow> bool" where
  "row_le c ascending r s =
     (if ascending then val_le (col r c) (col s c) else val_le (col s c) (col r c))"

fun insert_row :: "(row \<Rightarrow> row \<Rightarrow> bool) \<Rightarrow> row \<Rightarrow> row list \<Rightarrow> row list" where
  "insert_row le r [] = [r]"
| "insert_row le r (s # rs) = (if le r s then r # s # rs else s # insert_row le r rs)"

definition order_rows :: "(string \<times> bool) option \<Rightarrow> row list \<Rightarrow> row list" where
  "order_rows ord rs =
     (case ord of None \<Rightarrow> rs
      | Some (c, ascending) \<Rightarrow> foldr (insert_row (row_le c ascending)) rs [])"

definition paginate :: "nat option \<Rightarrow> nat option \<Rightarrow> row list \<Rightarrow> row list" where
  "paginate lim off rs =
     (let skipped = (case off of None \<Rightarrow> rs | Some k \<Rightarrow> drop k rs)
      in case lim of None \<Rightarrow> skipped | Some n \<Rightarrow> take n skipped)"

definition run_query :: "query \<Rightarrow> world \<Rightarrow> row list" where
  "run_query q w =
     paginate (q_limit q) (q_offset q)
       (order_rows (q_order q) (filter (matches (q_eq q) (q_is_null q)) (tables w (q_table q))))"

text \<open>Awaiting a select query; with \<^verbatim>\<open>.single()\<close> the answer is the one row, or the error
  when the query does not select exactly one row.\<close>

definition db_select :: "query \<Rightarrow> world \<Rightarrow> row list \<times> world" where
  "db_select q w = (run_query q w, log_event (EvSelect (q_table q)) w)"

definition db_select_single :: "query \<Rightarrow> world \<Rightarrow> (error + row) \<times> world" where
  "db_select_single q w =
     (case run_query q w of
        [r] \<Rightarrow> (Inr r, log_event (EvSelect (q_table q)) w)
      | _ \<Rightarrow> (Inl NotFound, log_event (EvSelect (q_table q)) w))"

subsection \<open>Mutations\<close>

definition apply_patch :: "row \<Rightarrow> row \<Rightarrow> row" where
  "apply_patch patch r = fold (\<lambda>(c, v). AList.update c v) patch r"

definition set_table :: "string \<Rightarrow> row list \<Rightarrow> world \<Rightarrow> world" where
  "set_table t rs w = w\<lparr>tables := (tables w)(t := rs)\<rparr>"

text \<open>\<^verbatim>\<open>.insert(v).select().single()\<close>: the store completes the row and appends it.\<close>

definition db_insert :: "string \<Rightarrow> row \<Rightarrow> world \<Rightarrow> (error + row) \<times> world" where
  "db_insert t v w =
     (let r = db_defaults w t (tables w t) v
      in (Inr r, log_event (EvInsert t) (set_table t (tables w t @ [r]) w)))"

text \<open>\<^verbatim>\<open>.update(patch).eq(..).eq(..)\<close> awaited without \<^verbatim>\<open>.single()\<close>: every matching row is
  patched, and matching no row is not an error.\<close>

definition db_update :: "string \<Rightarrow> row \<Rightarrow> (string \<times> jsval) list \<Rightarrow> world \<Rightarrow> world" where
  "db_update t patch eqs w =
     log_event (EvUpdate t)
       (set_table t (map (\<lambda>r. if matches eqs [] r then apply_patch patch r else r) (tables w t)) w)"

text \<open>\<^verbatim>\<open>.update(patch).eq(..).eq(..).select().single()\<close>: when exactly one row matches it is
  patched and returned; otherwise the request fails and the table is as before.\<close>

definition db_update_single ::
  "string \<Rightarrow> row \<Rightarrow> (string \<times> jsval) list \<Rightarrow> world \<Rightarrow> (error + row) \<times> world" where
  "db_update_single t patch eqs w =
     (case filter (matches eqs []) (tables w t) of
        [r] \<Rightarrow> (Inr (apply_patch patch r), db_update t patch eqs w)
      | _ \<Rightarrow> (Inl NotFound, log_event (EvUpdate t) w))"

definition db_delete :: "string \<Rightarrow> (string \<times> jsval) list \<Rightarrow> world \<Rightarrow> world" where
  "db_delete t eqs w =
     log_event (EvDelete t) (set_table t (filter (\<lambda>r. \<not> matches eqs [] r) (tables w t)) w)"

section \<open>Types of the factory\<close>

datatype operation = OpCreate | OpRead | OpUpdate | OpDelete

text \<open>\<^verbatim>\<open>OperationContext\<close> of \<^verbatim>\<open>crud.types.ts\<close>; the contexts given to \<^verbatim>\<open>beforeCreate\<close> and
  \<^verbatim>\<open>beforeRead\<close> have no \<^verbatim>\<open>entityId\<close>.\<close>

record OperationContext =
  ctx_operation :: operation
  entityType :: string
  entityId :: "jsval option"
  userId :: jsval
  ctx_timestamp :: string
  metadata :: "row option"

text \<open>
  \<^verbatim>\<open>CRUDHooks\<close>: seven optional callbacks. A hook is modelled by what the factory sees of
  it: it returns normally (\<open>None\<close>) or throws (\<open>Some e\<close>). What a hook does on its own to the
  outside world is not part of the model; its invocation is recorded in the trace.
\<close>

record CRUDHooks =
  beforeCreate :: "(row \<Rightarrow> OperationContext \<Rightarrow> error option) option"
  afterCreate :: "(row \<Rightarrow> OperationContext \<Rightarrow> error option) option"
  beforeUpdate :: "(string \<Rightarrow> row \<Rightarrow> OperationContext \<Rightarrow> error option) option"
  afterUpdate :: "(row \<Rightarrow> row option \<Rightarrow> OperationContext \<Rightarrow> error option) option"
  beforeDelete :: "(string \<Rightarrow> OperationContext \<Rightarrow> error option) option"
  afterDelete :: "(row \<Rightarrow> OperationContext \<Rightarrow> error option) option"
  beforeRead :: "(string option \<Rightarrow> OperationContext \<Rightarrow> error option) option"

datatype sort_order = Asc | Desc

text \<open>\<^verbatim>\<open>QueryOptions\<close>: \<^verbatim>\<open>limit\<close> and \<^verbatim>\<open>offset\<close> are counts of records.\<close>

record QueryOptions =
  limit :: "nat option"
  offset :: "nat option"
  sortBy :: "string option"
  sortOrder :: "sort_order option"
  filters :: "(string \<times> jsval) list option"

record CRUDOptions =
  opt_ownerIdColumn :: "string option"
  opt_includeArchived :: "bool option"
  opt_revalidatePaths :: "string list option"
  opt_selectQuery :: "string option"
  opt_useProfileLookup :: "bool option"
  opt_hasSoftDelete :: "bool option"
  opt_defaultSort :: "(string \<times> bool) option"
  opt_hooks :: "CRUDHooks option"

text \<open>The \<open>config\<close> object that \<^verbatim>\<open>createCRUDOperations\<close> resolves once.\<close>

record config =
  ownerIdColumn :: string
  includeArchived :: bool
  revalidatePaths :: "string list"
  selectQuery :: string
  useProfileLookup :: bool
  hasSoftDelete :: bool
  defaultSort :: "string \<times> bool"

text \<open>A schema accepts a value and returns the parsed value, or rejects it with its issues.\<close>

type_synonym schema = "row \<Rightarrow> string list + row"

text \<open>What the generated operations close over: the arguments of
  \<^verbatim>\<open>createCRUDOperations\<close> and the resolved \<open>config\<close>.\<close>

record factory =
  tableName :: string
  insertSchema :: schema
  updateSchema :: schema
  options :: "CRUDOptions option"
  config :: config

text \<open>The readings of the clock during one call: \<open>now1\<close> and \<open>now2\<close> are the two
  \<^verbatim>\<open>Date.now()\<close> of \<^verbatim>\<open>getCachedResult\<close>, \<open>now3\<close> the one of \<^verbatim>\<open>setCachedResult\<close>, \<open>iso\<close>
  is \<^verbatim>\<open>new Date().toISOString()\<close>.\<close>

record clock =
  now1 :: int
  now2 :: int
  now3 :: int
  iso :: string

section \<open>Internal helpers\<close>

definition DEV_ID :: string where
  "DEV_ID = ''00000000-0000-0000-0000-000000000000''"

datatype client = UserClient | AdminClient

definition auth_getUser :: "client \<Rightarrow> world \<Rightarrow> string option" where
  "auth_getUser c w = (case c of UserClient \<Rightarrow> session_user w | AdminClient \<Rightarrow> admin_user w)"

definition getProfileId :: "client \<Rightarrow> world \<Rightarrow> (error + jsval \<times> jsval) \<times> world" where
  "getProfileId supabase w =
     (case auth_getUser supabase w of
        None \<Rightarrow>
          if development w then (Inr (JStr DEV_ID, JStr DEV_ID), w)
          else (Inl NotAuthenticated, w)
      | Some user \<Rightarrow>
          (case db_select_single
                  (eq_filter ''auth_user_id'' (JStr user) (from_select ''profiles'' ''id'')) w of
             (Inl e, w') \<Rightarrow> (Inr (JStr user, JStr user), w')
           | (Inr profile, w') \<Rightarrow> (Inr (col profile ''id'', JStr user), w')))"

definition getContext :: "world \<Rightarrow> error + client \<times> jsval" where
  "getContext w =
     (case auth_getUser UserClient w of
        None \<Rightarrow>
          if development w then
            Inr (AdminClient,
                 JStr (case auth_getUser AdminClient w of Some devUser \<Rightarrow> devUser | None \<Rightarrow> DEV_ID))
          else Inl NotAuthenticated
      | Some user \<Rightarrow> Inr (UserClient, JStr user))"

definition buildOperationContext ::
  "operation \<Rightarrow> string \<Rightarrow> jsval \<Rightarrow> jsval \<Rightarrow> clock \<Rightarrow> OperationContext" where
  "buildOperationContext op etype eid uid clk =
     \<lparr>ctx_operation = op, entityType = etype, entityId = Some eid,
      userId = uid, ctx_timestamp = iso clk, metadata = None\<rparr>"

text \<open>
  \<^verbatim>\<open>determineOwnerColumn\<close> ends with \<^verbatim>\<open>ownerColumnMap[tableName] ?? 'owner_id'\<close> on an
  empty object literal. The literal has no property of its own, but a table name that is
  the name of a member of \<^verbatim>\<open>Object.prototype\<close> finds that inherited member, which is not
  nullish and is returned. Where the column is used (the computed key of the insert
  payload, the column of \<^verbatim>\<open>.eq\<close>) the member is turned into its string, which is what the
  table below holds.
\<close>

definition Object_prototype_member :: "string \<Rightarrow> string option" where
  "Object_prototype_member name =
     map_of
       [(''constructor'', ''function Object() { [native code] }''),
        (''hasOwnProperty'', ''function hasOwnProperty() { [native code] }''),
        (''isPrototypeOf'', ''function isPrototypeOf() { [native code] }''),
        (''propertyIsEnumerable'', ''function propertyIsEnumerable() { [native code] }''),
        (''toLocaleString'', ''function toLocaleString() { [native code] }''),
        (''toString'', ''function toString() { [native code] }''),
        (''valueOf'', ''function valueOf() { [native code] }''),
        (''__defineGetter__'', ''function __defineGetter__() { [native code] }''),
        (''__defineSetter__'', ''function __defineSetter__() { [native code] }''),
        (''__lookupGetter__'', ''function __lookupGetter__() { [native code] }''),
        (''__lookupSetter__'', ''function __lookupSetter__() { [native code] }''),
        (''__proto__'', ''[object Object]'')] name"

definition determineOwnerColumn :: "string \<Rightarrow> CRUDOptions option \<Rightarrow> string" where
  "determineOwnerColumn tname copts =
     (let mapped = (case Object_prototype_member tname of
                      None \<Rightarrow> ''owner_id'' | Some member \<Rightarrow> member)
      in case copts of
           None \<Rightarrow> mapped
         | Some opts \<Rightarrow>
             (case opt_ownerIdColumn opts of
                None \<Rightarrow> mapped
              | Some c \<Rightarrow> if c \<noteq> [] then c else mapped))"

text \<open>\<^verbatim>\<open>revalidateAllPaths\<close> calls the notifier on each path inside \<^verbatim>\<open>try/catch\<close>: whatever
  happens there, the operation goes on.\<close>

definition revalidateAllPaths :: "string list \<Rightarrow> world \<Rightarrow> world" where
  "revalidateAllPaths paths w = log_event (EvRevalidate paths) w"

text \<open>Reading a member of \<^verbatim>\<open>options?.hooks\<close>.\<close>

definition hook_of :: "factory \<Rightarrow> (CRUDHooks \<Rightarrow> 'h option) \<Rightarrow> 'h option" where
  "hook_of f sel =
     (case options f of
        None \<Rightarrow> None
      | Some opts \<Rightarrow> (case opt_hooks opts of None \<Rightarrow> None | Some hs \<Rightarrow> sel hs))"

text \<open>The block that opens every operation:
  \<^verbatim>\<open>const { supabase, ownerId } = await getContext()\<close>, then the profile identifier in
  place of the owner when \<^verbatim>\<open>config.useProfileLookup\<close> is set.\<close>

definition finalOwnerId :: "factory \<Rightarrow> world \<Rightarrow> (error + jsval) \<times> world" where
  "finalOwnerId f w =
     (case getContext w of
        Inl e \<Rightarrow> (Inl e, w)
      | Inr (supabase, ownerId) \<Rightarrow>
          if useProfileLookup (config f) then
            (case getProfileId supabase w of
               (Inl e, w') \<Rightarrow> (Inl e, w')
             | (Inr (profileId, uid), w') \<Rightarrow> (Inr profileId, w'))
          else (Inr ownerId, w))"

text \<open>\<^verbatim>\<open>key === 'id' || key.endsWith('_id')\<close> with the value \<^verbatim>\<open>''\<close> becomes \<^verbatim>\<open>null\<close>.\<close>

definition endsWith :: "string \<Rightarrow> string \<Rightarrow> bool" where
  "endsWith s suf = (length suf \<le> length s \<and> drop (length s - length suf) s = suf)"

definition processData :: "row \<Rightarrow> row" where
  "processData formData =
     map (\<lambda>(key, v). if (key = ''id'' \<or> endsWith key ''_id'') \<and> v = JStr [] then (key, JNull)
                      else (key, v)) formData"

text \<open>The idempotency check that opens \<^verbatim>\<open>create\<close> and \<^verbatim>\<open>update\<close>, and the store that
  closes them.\<close>

definition cacheLookup :: "string option \<Rightarrow> clock \<Rightarrow> world \<Rightarrow> jsval \<times> world" where
  "cacheLookup idempotencyKey clk w =
     (case idempotencyKey of
        None \<Rightarrow> (JNull, w)
      | Some key \<Rightarrow>
          if key \<noteq> [] then
            (case getCachedResult (now1 clk) (now2 clk) key (idempotencyCache w) of
               (cached, m) \<Rightarrow> (cached, w\<lparr>idempotencyCache := m\<rparr>))
          else (JNull, w))"

definition cacheStore :: "string option \<Rightarrow> clock \<Rightarrow> jsval \<Rightarrow> world \<Rightarrow> world" where
  "cacheStore idempotencyKey clk data w =
     (case idempotencyKey of
        None \<Rightarrow> w
      | Some key \<Rightarrow>
          if key \<noteq> [] then
            w\<lparr>idempotencyCache := setCachedResult (now3 clk) key data (idempotencyCache w)\<rparr>
          else w)"

definition call_hook ::
  "string \<Rightarrow> 'h option \<Rightarrow> ('h \<Rightarrow> error option) \<Rightarrow> world \<Rightarrow> error option \<times> world" where
  "call_hook name h app w =
     (case h of None \<Rightarrow> (None, w) | Some g \<Rightarrow> (app g, log_event (EvHook name) w))"

section \<open>The generated operations\<close>

subsection \<open>getAll\<close>

text \<open>The query that \<^verbatim>\<open>getAll\<close> builds (lines 235 to 257).\<close>

definition getAll_query :: "factory \<Rightarrow> QueryOptions option \<Rightarrow> jsval \<Rightarrow> query" where
  "getAll_query f queryOptions owner =
     (let q0 = eq_filter (ownerIdColumn (config f)) owner
                 (from_select (tableName f) (selectQuery (config f)));
          q1 = (if hasSoftDelete (config f) \<and> \<not> includeArchived (config f)
                then is_null ''archived_at'' q0 else q0);
          q2 = (case Option.bind queryOptions filters of
                  None \<Rightarrow> q1
                | Some fs \<Rightarrow> fold (\<lambda>(key, v) q. eq_filter key v q) fs q1);
          sort_col = (case Option.bind queryOptions sortBy of
                        None \<Rightarrow> fst (defaultSort (config f)) | Some c \<Rightarrow> c);
          ascending = ((case Option.bind queryOptions sortOrder of
                          None \<Rightarrow> (if snd (defaultSort (config f)) then Asc else Desc)
                        | Some so \<Rightarrow> so) = Asc);
          q3 = order_by sort_col ascending q2;
          q4 = (case Option.bind queryOptions limit of
                  None \<Rightarrow> q3
                | Some n \<Rightarrow> if n \<noteq> 0 then limit_to n q3 else q3)
      in case (Option.bind queryOptions offset, Option.bind queryOptions limit) of
           (Some k, Some n) \<Rightarrow> if k \<noteq> 0 \<and> n \<noteq> 0 then range_q k (k + n - 1) q4 else q4
         | _ \<Rightarrow> q4)"

definition getAll ::
  "factory \<Rightarrow> QueryOptions option \<Rightarrow> clock \<Rightarrow> world \<Rightarrow> (error + row list) \<times> world" where
  "getAll f queryOptions clk w =
     (case finalOwnerId f w of
        (Inl e, w1) \<Rightarrow> (Inl e, w1)
      | (Inr owner, w1) \<Rightarrow>
          (case call_hook ''beforeRead'' (hook_of f beforeRead)
                  (\<lambda>h. h None \<lparr>ctx_operation = OpRead, entityType = tableName f,
                                entityId = None, userId = owner, ctx_timestamp = iso clk,
                                metadata = None\<rparr>) w1 of
             (Some e, w2) \<Rightarrow> (Inl e, w2)
           | (None, w2) \<Rightarrow>
               (case db_select (getAll_query f queryOptions owner) w2 of
                  (data, w3) \<Rightarrow> (Inr data, w3))))"

subsection \<open>getOne\<close>

definition getOne :: "factory \<Rightarrow> string \<Rightarrow> world \<Rightarrow> (error + row) \<times> world" where
  "getOne f ident w =
     (case finalOwnerId f w of
        (Inl e, w1) \<Rightarrow> (Inl e, w1)
      | (Inr owner, w1) \<Rightarrow>
          db_select_single
            (eq_filter (ownerIdColumn (config f)) owner
               (eq_filter ''id'' (JStr ident)
                  (from_select (tableName f) (selectQuery (config f))))) w1)"

subsection \<open>create\<close>

text \<open>\<^verbatim>\<open>create\<close> from \<^verbatim>\<open>getContext()\<close> on (lines 296 to 346), entered when the idempotency
  check did not return.\<close>

definition create_run ::
  "factory \<Rightarrow> row \<Rightarrow> string option \<Rightarrow> clock \<Rightarrow> world \<Rightarrow> (error + jsval) \<times> world" where
  "create_run f formData idempotencyKey clk w =
     (case finalOwnerId f w of
        (Inl e, w1) \<Rightarrow> (Inl e, w1)
      | (Inr owner, w1) \<Rightarrow>
          (case insertSchema f
                  (AList.update (ownerIdColumn (config f)) owner (processData formData)) of
             Inl issues \<Rightarrow> (Inl (ValidationError issues), log_event EvValidate w1)
           | Inr validated \<Rightarrow>
               (case call_hook ''beforeCreate'' (hook_of f beforeCreate)
                       (\<lambda>h. h validated \<lparr>ctx_operation = OpCreate, entityType = tableName f,
                                          entityId = None, userId = owner,
                                          ctx_timestamp = iso clk, metadata = None\<rparr>)
                       (log_event EvValidate w1) of
                  (Some e, w2) \<Rightarrow> (Inl e, w2)
                | (None, w2) \<Rightarrow>
                    (case db_insert (tableName f) validated w2 of
                       (Inl e, w3) \<Rightarrow> (Inl e, w3)
                     | (Inr data, w3) \<Rightarrow>
                         (case call_hook ''afterCreate'' (hook_of f afterCreate)
                                 (\<lambda>h. h data (buildOperationContext OpCreate (tableName f)
                                                 (col data ''id'') owner clk)) w3 of
                            (Some e, w4) \<Rightarrow> (Inl e, w4)
                          | (None, w4) \<Rightarrow>
                              (Inr (JObj data),
                               cacheStore idempotencyKey clk (JObj data)
                                 (revalidateAllPaths (revalidatePaths (config f)) w4)))))))"

definition create ::
  "factory \<Rightarrow> row \<Rightarrow> string option \<Rightarrow> clock \<Rightarrow> world \<Rightarrow> (error + jsval) \<times> world" where
  "create f formData idempotencyKey clk w =
     (case cacheLookup idempotencyKey clk w of
        (cached, w0) \<Rightarrow>
          if truthy cached then (Inr cached, w0)
          else create_run f formData idempotencyKey clk w0)"

subsection \<open>update\<close>

text \<open>\<^verbatim>\<open>update\<close> from \<^verbatim>\<open>getContext()\<close> on (lines 358 to 411).\<close>

definition update_run ::
  "factory \<Rightarrow> string \<Rightarrow> row \<Rightarrow> string option \<Rightarrow> clock \<Rightarrow> world \<Rightarrow> (error + jsval) \<times> world" where
  "update_run f ident formData idempotencyKey clk w =
     (case finalOwnerId f w of
        (Inl e, w1) \<Rightarrow> (Inl e, w1)
      | (Inr owner, w1) \<Rightarrow>
          (case updateSchema f (processData formData) of
             Inl issues \<Rightarrow> (Inl (ValidationError issues), log_event EvValidate w1)
           | Inr validated \<Rightarrow>
               (let scope = [(''id'', JStr ident), (ownerIdColumn (config f), owner)];
                    (previousData, w2) =
                      (case hook_of f afterUpdate of
                         None \<Rightarrow> (None, log_event EvValidate w1)
                       | Some h \<Rightarrow>
                           (case db_select_single
                                   (eq_filter (ownerIdColumn (config f)) owner
                                      (eq_filter ''id'' (JStr ident)
                                         (from_select (tableName f) ''*'')))
                                   (log_event EvValidate w1) of
                              (Inl e, w') \<Rightarrow> (None, w')
                            | (Inr prev, w') \<Rightarrow> (Some prev, w')))
                in case call_hook ''beforeUpdate'' (hook_of f beforeUpdate)
                          (\<lambda>h. h ident validated
                                  (buildOperationContext OpUpdate (tableName f) (JStr ident)
                                     owner clk)) w2 of
                     (Some e, w3) \<Rightarrow> (Inl e, w3)
                   | (None, w3) \<Rightarrow>
                       (case db_update_single (tableName f) validated scope w3 of
                          (Inl e, w4) \<Rightarrow> (Inl e, w4)
                        | (Inr data, w4) \<Rightarrow>
                            (case call_hook ''afterUpdate'' (hook_of f afterUpdate)
                                    (\<lambda>h. h data previousData
                                            (buildOperationContext OpUpdate (tableName f)
                                               (JStr ident) owner clk)) w4 of
                               (Some e, w5) \<Rightarrow> (Inl e, w5)
                             | (None, w5) \<Rightarrow>
                                 (Inr (JObj data),
                                  cacheStore idempotencyKey clk (JObj data)
                                    (revalidateAllPaths (revalidatePaths (config f)) w5)))))))"

definition update ::
  "factory \<Rightarrow> string \<Rightarrow> row \<Rightarrow> string option \<Rightarrow> clock \<Rightarrow> world \<Rightarrow> (error + jsval) \<times> world" where
  "update f ident formData idempotencyKey clk w =
     (case cacheLookup idempotencyKey clk w of
        (cached, w0) \<Rightarrow>
          if truthy cached then (Inr cached, w0)
          else update_run f ident formData idempotencyKey clk w0)"

subsection \<open>delete, archive, unarchive\<close>

definition deleteRecord :: "factory \<Rightarrow> string \<Rightarrow> clock \<Rightarrow> world \<Rightarrow> (error + unit) \<times> world" where
  "deleteRecord f ident clk w =
     (case finalOwnerId f w of
        (Inl e, w1) \<Rightarrow> (Inl e, w1)
      | (Inr owner, w1) \<Rightarrow>
          (let scope = [(''id'', JStr ident), (ownerIdColumn (config f), owner)];
               (deletedData, w2) =
                 (case hook_of f afterDelete of
                    None \<Rightarrow> (None, w1)
                  | Some h \<Rightarrow>
                      (case db_select_single
                              (eq_filter (ownerIdColumn (config f)) owner
                                 (eq_filter ''id'' (JStr ident)
                                    (from_select (tableName f) ''*''))) w1 of
                         (Inl e, w') \<Rightarrow> (None, w')
                       | (Inr d, w') \<Rightarrow> (Some d, w')))
           in case call_hook ''beforeDelete'' (hook_of f beforeDelete)
                     (\<lambda>h. h ident (buildOperationContext OpDelete (tableName f) (JStr ident)
                                      owner clk)) w2 of
                (Some e, w3) \<Rightarrow> (Inl e, w3)
              | (None, w3) \<Rightarrow>
                  (let w4 = (if hasSoftDelete (config f)
                             then db_update (tableName f)
                                    [(''archived_at'', JStr (iso clk)),
                                     (''status'', JStr ''archived'')] scope w3
                             else db_delete (tableName f) scope w3)
                   in case (case deletedData of
                              None \<Rightarrow> (None, w4)
                            | Some d \<Rightarrow>
                                call_hook ''afterDelete'' (hook_of f afterDelete)
                                  (\<lambda>h. h d (buildOperationContext OpDelete (tableName f)
                                               (JStr ident) owner clk)) w4) of
                        (Some e, w5) \<Rightarrow> (Inl e, w5)
                      | (None, w5) \<Rightarrow>
                          (Inr (), revalidateAllPaths (revalidatePaths (config f)) w5))))"


definition unarchive :: "factory \<Rightarrow> string \<Rightarrow> world \<Rightarrow> (error + unit) \<times> world" where
  "unarchive f ident w =
     (if \<not> hasSoftDelete (config f) then (Inl (UnsupportedOperation (tableName f)), w)
      else
        (case finalOwnerId f w of
           (Inl e, w1) \<Rightarrow> (Inl e, w1)
         | (Inr owner, w1) \<Rightarrow>
             (Inr (),
              revalidateAllPaths (revalidatePaths (config f))
                (db_update (tableName f)
                   [(''archived_at'', JNull), (''status'', JStr ''active'')]
                   [(''id'', JStr ident), (ownerIdColumn (config f), owner)] w1))))"

subsection \<open>The factory\<close>

text \<open>The resolution of \<open>config\<close> (lines 204 to 212): each option, or its default.\<close>

definition opt_or :: "CRUDOptions option \<Rightarrow> (CRUDOptions \<Rightarrow> 'a option) \<Rightarrow> 'a \<Rightarrow> 'a" where
  "opt_or copts sel d = (case Option.bind copts sel of None \<Rightarrow> d | Some v \<Rightarrow> v)"

definition make_factory ::
  "string \<Rightarrow> schema \<Rightarrow> schema \<Rightarrow> CRUDOptions option \<Rightarrow> factory" where
  "make_factory tname ins upd copts =
     \<lparr>tableName = tname, insertSchema = ins, updateSchema = upd, options = copts,
      config =
        \<lparr>ownerIdColumn = determineOwnerColumn tname copts,
         includeArchived = opt_or copts opt_includeArchived False,
         revalidatePaths = opt_or copts opt_revalidatePaths [''/'' @ tname],
         selectQuery = opt_or copts opt_selectQuery ''*'',
         useProfileLookup = opt_or copts opt_useProfileLookup False,
         hasSoftDelete = opt_or copts opt_hasSoftDelete True,
         defaultSort = opt_or copts opt_defaultSort (''created_at'', False)\<rparr>\<rparr>"






section \<open>Observations on the trace\<close>

definition is_write :: "event \<Rightarrow> bool" where
  "is_write e =
     (case e of EvInsert t \<Rightarrow> True | EvUpdate t \<Rightarrow> True | EvDelete t \<Rightarrow> True | _ \<Rightarrow> False)"

definition is_hook :: "event \<Rightarrow> bool" where
  "is_hook e = (case e of EvHook n \<Rightarrow> True | _ \<Rightarrow> False)"

section \<open>Example inputs\<close>

text \<open>A schema that accepts everything, a store that completes an inserted row with an
  id, \<open>status\<close> and \<open>archived_at\<close>, an empty world in which \<open>alice\<close> is signed in, and two
  factories built with the default options.\<close>

definition accept :: schema where
  "accept v = Inr v"

definition default_col :: "string \<Rightarrow> jsval \<Rightarrow> row \<Rightarrow> row" where
  "default_col c d r = (if map_of r c = None then r @ [(c, d)] else r)"

definition complete_row :: "string \<Rightarrow> row list \<Rightarrow> row \<Rightarrow> row" where
  "complete_row t rs v =
     default_col ''archived_at'' JNull
       (default_col ''status'' (JStr ''active'')
          (default_col ''id'' (JStr (t @ ''-'' @ replicate (length rs) (CHR ''i''))) v))"

definition world0 :: world where
  "world0 =
     \<lparr>idempotencyCache = DAList.empty, tables = (\<lambda>t. []), db_defaults = complete_row,
      session_user = Some ''alice'', admin_user = None, development = False, trace = []\<rparr>"

definition contactsAPI :: factory where
  "contactsAPI = make_factory ''contacts'' accept accept None"

definition projectsAPI :: factory where
  "projectsAPI = make_factory ''projects'' accept accept None"

definition clock_at :: "int \<Rightarrow> clock" where
  "clock_at t = \<lparr>now1 = t, now2 = t, now3 = t, iso = ''2024-01-01T00:00:00.000Z''\<rparr>"

definition jane :: row where
  "jane = [(''id'', JStr ''c1''), (''owner_id'', JStr ''alice''), (''name'', JStr ''Jane''),
           (''status'', JStr ''active''), (''archived_at'', JNull)]"


definition bobs :: row where
  "bobs = [(''id'', JStr ''c2''), (''owner_id'', JStr ''bob''), (''name'', JStr ''Bob''),
           (''status'', JStr ''active''), (''archived_at'', JNull)]"

definition old_jane :: row where
  "old_jane = [(''id'', JStr ''c3''), (''owner_id'', JStr ''alice''), (''name'', JStr ''Old''),
               (''status'', JStr ''archived''), (''archived_at'', JStr ''2023-05-05T00:00:00.000Z'')]"

definition world_rows :: world where
  "world_rows = world0\<lparr>tables := (\<lambda>t. if t = ''contacts'' then [jane, bobs, old_jane] else [])\<rparr>"

definition default_options :: CRUDOptions where
  "default_options =
     \<lparr>opt_ownerIdColumn = None, opt_includeArchived = None, opt_revalidatePaths = None,
      opt_selectQuery = None, opt_useProfileLookup = None, opt_hasSoftDelete = None,
      opt_defaultSort = None, opt_hooks = None\<rparr>"

text \<open>A schema that requires a non-empty \<open>name\<close>, and before-hooks that refuse the name
  \<open>blocked\<close>.\<close>

definition require_name :: schema where
  "require_name v = (if truthy (col v ''name'') then Inr v else Inl [''name: required''])"

definition refuse_blocked :: "row \<Rightarrow> error option" where
  "refuse_blocked v =
     (if col v ''name'' = JStr ''blocked'' then Some (HookError ''denied'') else None)"

definition deny_hooks :: CRUDHooks where
  "deny_hooks =
     \<lparr>beforeCreate = Some (\<lambda>v ctx. refuse_blocked v), afterCreate = None,
      beforeUpdate = Some (\<lambda>i v ctx. refuse_blocked v), afterUpdate = None,
      beforeDelete = None, afterDelete = None, beforeRead = None\<rparr>"

definition guardedAPI :: factory where
  "guardedAPI =
     make_factory ''contacts'' require_name require_name
       (Some (default_options\<lparr>opt_hooks := Some deny_hooks\<rparr>))"

text \<open>Four contacts of \<open>alice\<close> created one after the other, and query options that only
  paginate.\<close>

definition item :: "string \<Rightarrow> int \<Rightarrow> row" where
  "item i n = [(''id'', JStr i), (''owner_id'', JStr ''alice''), (''created_at'', JNum n)]"

definition world_list :: world where
  "world_list =
     world0\<lparr>tables := (\<lambda>t. if t = ''contacts''
                              then [item ''a'' 1, item ''b'' 2, item ''c'' 3, item ''d'' 4]
                              else [])\<rparr>"

definition page :: "nat option \<Rightarrow> nat option \<Rightarrow> QueryOptions" where
  "page lim off = \<lparr>limit = lim, offset = off, sortBy = None, sortOrder = None, filters = None\<rparr>"

text \<open>The same rows with \<open>bob\<close> signed in, and the world after \<open>bob\<close> has updated his
  contact under the idempotency key \<open>k-bob\<close> and \<open>alice\<close> has signed in.\<close>

definition world_bob :: world where
  "world_bob = world_rows\<lparr>session_user := Some ''bob''\<rparr>"

definition world_after_bob :: world where
  "world_after_bob =
     (snd (update contactsAPI ''c2'' [(''name'', JStr ''Bobby'')] (Some ''k-bob'') (clock_at 1000)
             world_bob))\<lparr>session_user := Some ''alice''\<rparr>"

text \<open>The row the store returns for \<open>alice\<close>'s first contact, and the world after she has
  created it through the contacts factory under the idempotency key \<open>key-1\<close>.\<close>

definition jane_created :: row where
  "jane_created =
     [(''name'', JStr ''Jane''), (''owner_id'', JStr ''alice''), (''id'', JStr ''contacts-''),
      (''status'', JStr ''active''), (''archived_at'', JNull)]"

definition world_created :: world where
  "world_created =
     snd (create contactsAPI [(''name'', JStr ''Jane'')] (Some ''key-1'') (clock_at 1000) world0)"

section \<open>The idempotency cache\<close>

lemma lookup_cleanup_loop:
  "DAList.lookup (cleanup_loop now es m) k =
     (if \<exists>e. (k, e) \<in> set es \<and> now - timestamp e > CACHE_TTL_MS then None else DAList.lookup m k)"
  by (induction es arbitrary: m) (auto simp: fun_upd_def)

lemma lookup_cleanupExpiredCache:
  "DAList.lookup (cleanupExpiredCache now m) k =
     (case DAList.lookup m k of
        None \<Rightarrow> None
      | Some e \<Rightarrow> if now - timestamp e > CACHE_TTL_MS then None else Some e)"
proof -
  have "(k, e) \<in> set (DAList.impl_of m) \<longleftrightarrow> DAList.lookup m k = Some e" for e
    by (simp add: DAList.lookup.rep_eq)
  then show ?thesis
    by (auto simp: cleanupExpiredCache_def lookup_cleanup_loop split: option.splits)
qed

lemma cacheLookup_hit:
  assumes "key \<noteq> []" and "DAList.lookup (idempotencyCache w) key = Some e"
    and "now1 clk - timestamp e \<le> CACHE_TTL_MS" and "now2 clk - timestamp e \<le> CACHE_TTL_MS"
  shows "cacheLookup (Some key) clk w =
           (result e, w\<lparr>idempotencyCache := cleanupExpiredCache (now1 clk) (idempotencyCache w)\<rparr>)"
  using assms
  by (auto simp: cacheLookup_def getCachedResult_def Let_def lookup_cleanupExpiredCache split: option.splits)

lemma cacheLookup_world:
  "\<exists>m. snd (cacheLookup key clk w) = w\<lparr>idempotencyCache := m\<rparr>"
proof -
  have same: "\<exists>m. w = w\<lparr>idempotencyCache := m\<rparr>"
    by (rule exI[of _ "idempotencyCache w"]) simp
  show ?thesis
    by (cases key) (auto simp: cacheLookup_def same split: prod.splits)
qed

text \<open>Tenant resolution reads the session and the profiles table; it only adds reads of
  \<open>profiles\<close> to the trace.\<close>

lemma db_select_single_worldD:
  "db_select_single q w = (r, w') \<Longrightarrow> w' = log_event (EvSelect (q_table q)) w"
  by (auto simp: db_select_single_def split: list.splits)

lemma getProfileId_world:
  "snd (getProfileId c w) = w \<or> snd (getProfileId c w) = log_event (EvSelect ''profiles'') w"
  by (auto simp: getProfileId_def eq_filter_def from_select_def
      split: option.splits prod.splits sum.splits dest!: db_select_single_worldD)

lemma finalOwnerId_world:
  "snd (finalOwnerId f w) = w \<or> snd (finalOwnerId f w) = log_event (EvSelect ''profiles'') w"
proof (cases "getContext w")
  case (Inl e)
  then show ?thesis by (simp add: finalOwnerId_def)
next
  case (Inr p)
  obtain c ownerId where p: "p = (c, ownerId)" by (cases p)
  show ?thesis
    using getProfileId_world[of c w] Inr p
    by (auto simp: finalOwnerId_def split: sum.splits prod.splits)
qed

lemma finalOwnerId_tablesD: "finalOwnerId f w = (r, w1) \<Longrightarrow> tables w1 = tables w"
  using finalOwnerId_world[of f w] by (auto simp: log_event_def)

lemma finalOwnerId_writesD:
  "finalOwnerId f w = (r, w1) \<Longrightarrow> filter is_write (trace w1) = filter is_write (trace w)"
  using finalOwnerId_world[of f w] by (auto simp: log_event_def is_write_def)

lemma finalOwnerId_hooksD:
  "finalOwnerId f w = (r, w1) \<Longrightarrow> filter is_hook (trace w1) = filter is_hook (trace w)"
  using finalOwnerId_world[of f w] by (auto simp: log_event_def is_hook_def)

lemma run_query_cache [simp]: "run_query q (w\<lparr>idempotencyCache := m\<rparr>) = run_query q w"
  by (simp add: run_query_def)

lemma db_select_single_cache_upd:
  "fst (db_select_single q (w\<lparr>idempotencyCache := m\<rparr>)) = fst (db_select_single q w)"
  by (simp add: db_select_single_def split: list.splits)

lemma auth_getUser_cache_upd:
  "auth_getUser c (w\<lparr>idempotencyCache := m\<rparr>) = auth_getUser c w"
  by (simp add: auth_getUser_def split: client.splits)

lemma getProfileId_cache_upd:
  "fst (getProfileId c (w\<lparr>idempotencyCache := m\<rparr>)) = fst (getProfileId c w)"
proof -
  note u = auth_getUser_cache_upd[of c m w]
  show ?thesis
  proof (cases "auth_getUser c w")
    case None
    then show ?thesis by (simp add: getProfileId_def u)
  next
    case (Some user)
    let ?q = "eq_filter ''auth_user_id'' (JStr user) (from_select ''profiles'' ''id'')"
    have "fst (db_select_single ?q (w\<lparr>idempotencyCache := m\<rparr>)) = fst (db_select_single ?q w)"
      by (rule db_select_single_cache_upd)
    then show ?thesis
      by (cases "db_select_single ?q w"; cases "db_select_single ?q (w\<lparr>idempotencyCache := m\<rparr>)")
         (auto simp: getProfileId_def u Some split: sum.splits)
  qed
qed

lemma getContext_cache_upd: "getContext (w\<lparr>idempotencyCache := m\<rparr>) = getContext w"
  by (simp add: getContext_def auth_getUser_cache_upd split: option.splits)

lemma finalOwnerId_cache_upd:
  "fst (finalOwnerId f (w\<lparr>idempotencyCache := m\<rparr>)) = fst (finalOwnerId f w)"
proof (cases "getContext w")
  case (Inl e)
  then show ?thesis by (simp add: finalOwnerId_def getContext_cache_upd)
next
  case (Inr p)
  obtain c ownerId where p: "p = (c, ownerId)" by (cases p)
  show ?thesis
    using getProfileId_cache_upd[of c m w] Inr p
    by (cases "getProfileId c w"; cases "getProfileId c (w\<lparr>idempotencyCache := m\<rparr>)")
       (auto simp: finalOwnerId_def getContext_cache_upd split: sum.splits)
qed

text \<open>
  C2. A lookup first purges the whole cache: after it, an entry of any key \<open>k\<close> is there
  exactly when it was there before and its age at the cleanup's clock reading \<open>t1\<close> does not
  exceed the TTL of 5 minutes. Then it answers for \<open>key\<close>: the stored result when an entry
  exists whose age exceeds the TTL neither at \<open>t1\<close> nor at the lookup's own reading \<open>t2\<close>, and
  \<open>null\<close> otherwise. So an entry older than the TTL is never returned.
\<close>

theorem getCachedResult_purges_then_hits:
  "CACHE_TTL_MS = 300000
   \<and> DAList.lookup (snd (getCachedResult t1 t2 key m)) k =
     (case DAList.lookup m k of
        None \<Rightarrow> None
      | Some e \<Rightarrow> if t1 - timestamp e > CACHE_TTL_MS then None else Some e)
   \<and> fst (getCachedResult t1 t2 key m) =
     (case DAList.lookup m key of
        None \<Rightarrow> JNull
      | Some e \<Rightarrow>
          if t1 - timestamp e > CACHE_TTL_MS \<or> t2 - timestamp e > CACHE_TTL_MS then JNull
          else result e)"
proof -
  have "CACHE_TTL_MS = 300000" by (simp add: CACHE_TTL_MS_def)
  moreover have "DAList.lookup (snd (getCachedResult t1 t2 key m)) k =
     (case DAList.lookup m k of
        None \<Rightarrow> None
      | Some e \<Rightarrow> if t1 - timestamp e > CACHE_TTL_MS then None else Some e)"
    by (auto simp: getCachedResult_def Let_def lookup_cleanupExpiredCache split: option.splits)
  moreover have "fst (getCachedResult t1 t2 key m) =
     (case DAList.lookup m key of
        None \<Rightarrow> JNull
      | Some e \<Rightarrow>
          if t1 - timestamp e > CACHE_TTL_MS \<or> t2 - timestamp e > CACHE_TTL_MS then JNull
          else result e)"
    by (auto simp: getCachedResult_def Let_def lookup_cleanupExpiredCache split: option.splits)
  ultimately show ?thesis by blast
qed

section \<open>Idempotent retries\<close>

lemma create_hit:
  assumes "cacheLookup (Some key) clk w = (cached, w0)" and "truthy cached"
  shows "create f formData (Some key) clk w = (Inr cached, w0)"
  using assms by (simp add: create_def)

lemma update_hit:
  assumes "cacheLookup (Some key) clk w = (cached, w0)" and "truthy cached"
  shows "update f ident formData (Some key) clk w = (Inr cached, w0)"
  using assms by (simp add: update_def)

lemma cacheStore_lookup:
  assumes "key \<noteq> []"
  shows "DAList.lookup (idempotencyCache (cacheStore (Some key) clk r w)) key
           = Some \<lparr>result = r, timestamp = now3 clk\<rparr>"
  using assms by (simp add: cacheStore_def setCachedResult_def)

lemma create_run_stores:
  assumes "create_run f formData (Some key) clk w0 = (Inr r, w1)" and "key \<noteq> []"
  shows "DAList.lookup (idempotencyCache w1) key = Some \<lparr>result = r, timestamp = now3 clk\<rparr>
         \<and> truthy r"
proof -
  have "\<exists>data w4. r = JObj data
          \<and> w1 = cacheStore (Some key) clk (JObj data) w4"
    using assms(1)
    by (auto simp: create_run_def split: sum.splits prod.splits option.splits)
  then show ?thesis
    using cacheStore_lookup[OF assms(2)] by auto
qed

lemma update_run_stores:
  assumes "update_run f ident formData (Some key) clk w0 = (Inr r, w1)" and "key \<noteq> []"
  shows "DAList.lookup (idempotencyCache w1) key = Some \<lparr>result = r, timestamp = now3 clk\<rparr>
         \<and> truthy r"
proof -
  have "\<exists>data w4. r = JObj data
          \<and> w1 = cacheStore (Some key) clk (JObj data) w4"
    using assms(1)
    by (auto simp: update_run_def Let_def split: sum.splits prod.splits option.splits)
  then show ?thesis
    using cacheStore_lookup[OF assms(2)] by auto
qed

lemma cacheLookup_hitD:
  assumes "cacheLookup (Some key) clk w = (cached, w0)" and "truthy cached"
  shows "\<exists>e. DAList.lookup (idempotencyCache w0) key = Some e \<and> result e = cached"
  using assms
  by (auto simp: cacheLookup_def getCachedResult_def Let_def
      split: if_splits option.splits)

lemma stored_after_success:
  assumes "key \<noteq> []"
    and "create fA formDataA (Some key) clk0 w0 = (Inr r, w1)
         \<or> update fA identA formDataA (Some key) clk0 w0 = (Inr r, w1)"
  shows "\<exists>e. DAList.lookup (idempotencyCache w1) key = Some e \<and> result e = r \<and> truthy r
             \<and> (\<not> truthy (fst (cacheLookup (Some key) clk0 w0)) \<longrightarrow> timestamp e = now3 clk0)"
proof -
  obtain cached w' where cl: "cacheLookup (Some key) clk0 w0 = (cached, w')"
    by (cases "cacheLookup (Some key) clk0 w0")
  show ?thesis
  proof (cases "truthy cached")
    case True
    have "r = cached \<and> w1 = w'"
      using assms(2) cl True by (auto simp: create_def update_def)
    then show ?thesis
      using cacheLookup_hitD[OF cl True] True cl by auto
  next
    case False
    have "create_run fA formDataA (Some key) clk0 w' = (Inr r, w1)
          \<or> update_run fA identA formDataA (Some key) clk0 w' = (Inr r, w1)"
      using assms(2) cl False by (auto simp: create_def update_def)
    then have "DAList.lookup (idempotencyCache w1) key
                 = Some \<lparr>result = r, timestamp = now3 clk0\<rparr> \<and> truthy r"
      using create_run_stores[OF _ assms(1)] update_run_stores[OF _ assms(1)] by blast
    then show ?thesis by simp
  qed
qed

text \<open>
  C1. Let a first call of \<open>create\<close> or \<open>update\<close> with a (non-empty) idempotency key be
  executed, that is not itself answered from the cache, and return \<open>r\<close>. It stores \<open>r\<close>
  under the key, stamped with the clock reading of the store. Take any world whose cache
  still holds that entry for the key, and a call of \<open>create\<close> or \<open>update\<close> there with the
  key, whose clock readings are within the TTL of the stamp. The call returns \<open>r\<close>, the
  first call's result, at once: the world after it is the world before it with the cache
  purged of expired entries, so there was no validation, no hook and no access to the
  store (the trace and the tables are the same).
\<close>

theorem retry_returns_first_result:
  assumes "key \<noteq> []"
    and "\<not> truthy (fst (cacheLookup (Some key) clk0 w0))"
    and "create f0 formData0 (Some key) clk0 w0 = (Inr r, w1)
         \<or> update f0 ident0 formData0 (Some key) clk0 w0 = (Inr r, w1)"
    and "DAList.lookup (idempotencyCache w) key = DAList.lookup (idempotencyCache w1) key"
    and "now1 clk - now3 clk0 \<le> CACHE_TTL_MS"
    and "now2 clk - now3 clk0 \<le> CACHE_TTL_MS"
  shows "DAList.lookup (idempotencyCache w1) key = Some \<lparr>result = r, timestamp = now3 clk0\<rparr>
       \<and> create f formData (Some key) clk w =
           (Inr r, w\<lparr>idempotencyCache := cleanupExpiredCache (now1 clk) (idempotencyCache w)\<rparr>)
       \<and> update f ident formData (Some key) clk w =
           (Inr r, w\<lparr>idempotencyCache := cleanupExpiredCache (now1 clk) (idempotencyCache w)\<rparr>)
       \<and> trace (snd (create f formData (Some key) clk w)) = trace w
       \<and> tables (snd (create f formData (Some key) clk w)) = tables w
       \<and> trace (snd (update f ident formData (Some key) clk w)) = trace w
       \<and> tables (snd (update f ident formData (Some key) clk w)) = tables w"
proof -
  obtain e where e: "DAList.lookup (idempotencyCache w1) key = Some e" "result e = r" "truthy r"
    and ts: "timestamp e = now3 clk0"
    using stored_after_success[OF assms(1) assms(3)] assms(2) by blast
  have stored: "e = \<lparr>result = r, timestamp = now3 clk0\<rparr>"
    using e(2) ts by (cases e) simp
  have here: "DAList.lookup (idempotencyCache w) key = Some e"
    using assms(4) e(1) by simp
  have fresh: "now1 clk - timestamp e \<le> CACHE_TTL_MS" "now2 clk - timestamp e \<le> CACHE_TTL_MS"
    using assms(5,6) ts by simp_all
  note cl = cacheLookup_hit[OF assms(1) here fresh]
  have t: "truthy (result e)" using e by simp
  show ?thesis
    using create_hit[OF cl t, of f formData] update_hit[OF cl t, of f ident formData] e stored
    by simp
qed

theorem retry_returns_first_result_witness:
  "fst (create contactsAPI [(''name'', JStr ''Jane'')] (Some ''key-1'') (clock_at 1000) world0)
     = Inr (JObj jane_created)
   \<and> fst (create contactsAPI [(''name'', JStr ''Jane'')] (Some ''key-1'') (clock_at 2000)
          world_created) = Inr (JObj jane_created)
   \<and> fst (update contactsAPI ''contacts-'' [(''name'', JStr ''Jane'')] (Some ''key-1'')
          (clock_at 2000) world_created) = Inr (JObj jane_created)
   \<and> trace (snd (create contactsAPI [(''name'', JStr ''Jane'')] (Some ''key-1'') (clock_at 2000)
          world_created)) = trace world_created
   \<and> tables (snd (create contactsAPI [(''name'', JStr ''Jane'')] (Some ''key-1'')
          (clock_at 2000) world_created)) = tables world_created
   \<and> tables world_created ''contacts'' = [jane_created]"
proof -
  have k: "''key-1'' \<noteq> []" by simp
  have miss: "\<not> truthy (fst (cacheLookup (Some ''key-1'') (clock_at 1000) world0))"
    by code_simp
  have r: "fst (create contactsAPI [(''name'', JStr ''Jane'')] (Some ''key-1'') (clock_at 1000)
                  world0) = Inr (JObj jane_created)" by code_simp
  have first: "create contactsAPI [(''name'', JStr ''Jane'')] (Some ''key-1'') (clock_at 1000) world0
                 = (Inr (JObj jane_created), world_created)
               \<or> update contactsAPI ''contacts-'' [(''name'', JStr ''Jane'')] (Some ''key-1'')
                    (clock_at 1000) world0 = (Inr (JObj jane_created), world_created)"
    unfolding world_created_def by (metis r prod.collapse)
  have same: "DAList.lookup (idempotencyCache world_created) ''key-1''
                = DAList.lookup (idempotencyCache world_created) ''key-1''" by simp
  have t1: "now1 (clock_at 2000) - now3 (clock_at 1000) \<le> CACHE_TTL_MS"
    by (simp add: clock_at_def CACHE_TTL_MS_def)
  have t2: "now2 (clock_at 2000) - now3 (clock_at 1000) \<le> CACHE_TTL_MS"
    by (simp add: clock_at_def CACHE_TTL_MS_def)
  have rows: "tables world_created ''contacts'' = [jane_created]" by code_simp
  show ?thesis
    using retry_returns_first_result[OF k miss first same t1 t2, of contactsAPI
            "[(''name'', JStr ''Jane'')]" "''contacts-''"] r rows
    by simp
qed


section \<open>Soft delete disabled\<close>








section \<open>Scopes that match no row\<close>

lemma map_if_no_match:
  "filter P xs = [] \<Longrightarrow> map (\<lambda>r. if P r then g r else r) xs = xs"
  by (induction xs) (auto split: if_splits)

lemma db_update_no_match:
  assumes "filter (matches eqs []) (tables w t) = []"
  shows "db_update t patch eqs w = log_event (EvUpdate t) w"
proof -
  have "(tables w)(t := tables w t) = tables w" by (rule fun_upd_triv)
  then show ?thesis
    using assms by (simp add: db_update_def set_table_def map_if_no_match)
qed

lemma db_delete_no_match:
  assumes "filter (matches eqs []) (tables w t) = []"
  shows "db_delete t eqs w = log_event (EvDelete t) w"
proof -
  have "(tables w)(t := tables w t) = tables w" by (rule fun_upd_triv)
  moreover have "filter (\<lambda>r. \<not> matches eqs [] r) (tables w t) = tables w t"
    using assms by (simp add: filter_empty_conv)
  ultimately show ?thesis by (simp add: db_delete_def set_table_def)
qed

text \<open>
  C10. With soft delete enabled and the caller's identity resolved, \<open>unarchive\<close> of an id
  that matches no row under the id and owner scope returns normally. No row changes, no
  hook is invoked, and after the (empty) update the revalidation notify runs: the trace
  grows by the update request and the notify.
\<close>

theorem unarchive_no_match_succeeds:
  assumes "hasSoftDelete (config f)"
    and "fst (finalOwnerId f w) = Inr owner"
    and "filter (matches [(''id'', JStr ident), (ownerIdColumn (config f), owner)] [])
           (tables w (tableName f)) = []"
  shows "fst (unarchive f ident w) = Inr ()
       \<and> tables (snd (unarchive f ident w)) = tables w
       \<and> filter is_hook (trace (snd (unarchive f ident w))) = filter is_hook (trace w)
       \<and> trace (snd (unarchive f ident w)) =
           trace (snd (finalOwnerId f w)) @
             [EvUpdate (tableName f), EvRevalidate (revalidatePaths (config f))]"
proof -
  obtain w1 where fo: "finalOwnerId f w = (Inr owner, w1)"
    using assms(2) by (cases "finalOwnerId f w") auto
  have tw1: "tables w1 = tables w"
    using fo by (rule finalOwnerId_tablesD)
  have hw1: "filter is_hook (trace w1) = filter is_hook (trace w)"
    using fo by (rule finalOwnerId_hooksD)
  have upd: "db_update (tableName f) [(''archived_at'', JNull), (''status'', JStr ''active'')]
               [(''id'', JStr ident), (ownerIdColumn (config f), owner)] w1
             = log_event (EvUpdate (tableName f)) w1"
    using assms(3) tw1 by (intro db_update_no_match) simp
  have un: "unarchive f ident w =
              (Inr (), revalidateAllPaths (revalidatePaths (config f))
                         (log_event (EvUpdate (tableName f)) w1))"
    using assms(1) fo upd by (simp add: unarchive_def)
  show ?thesis
    using tw1 hw1 fo
    by (simp add: un revalidateAllPaths_def log_event_def is_hook_def)
qed

theorem unarchive_no_match_succeeds_witness:
  "fst (unarchive contactsAPI ''c2'' world_rows) = Inr ()
   \<and> tables (snd (unarchive contactsAPI ''c2'' world_rows)) = tables world_rows
   \<and> trace (snd (unarchive contactsAPI ''c2'' world_rows))
       = [EvUpdate ''contacts'', EvRevalidate [''/contacts'']]"
proof -
  have h1: "hasSoftDelete (config contactsAPI)" by code_simp
  have h2: "fst (finalOwnerId contactsAPI world_rows) = Inr (JStr ''alice'')" by code_simp
  have h3: "filter (matches [(''id'', JStr ''c2''), (ownerIdColumn (config contactsAPI), JStr ''alice'')] [])
              (tables world_rows (tableName contactsAPI)) = []" by code_simp
  have t: "trace (snd (finalOwnerId contactsAPI world_rows)) = []" by code_simp
  have n: "tableName contactsAPI = ''contacts''" by code_simp
  have p: "revalidatePaths (config contactsAPI) = [''/contacts'']" by code_simp
  show ?thesis
    using unarchive_no_match_succeeds[OF h1 h2 h3] by (simp add: t n p)
qed


section \<open>Listing\<close>

lemma set_insert_row: "set (insert_row le r rs) = insert r (set rs)"
  by (induction rs) auto

lemma set_order_rows: "set (order_rows ord rs) = set rs"
proof (cases ord)
  case None
  then show ?thesis by (simp add: order_rows_def)
next
  case (Some p)
  obtain c a where p: "p = (c, a)" by (cases p)
  have "set (foldr (insert_row le) xs []) = set xs" for le and xs :: "row list"
    by (induction xs) (auto simp: set_insert_row)
  then show ?thesis by (simp add: order_rows_def Some p)
qed

lemma set_paginate: "set (paginate lim off rs) \<subseteq> set rs"
proof -
  have "set (take n (drop k rs)) \<subseteq> set rs" for n k
    by (meson set_take_subset set_drop_subset subset_trans)
  moreover have "set (take n rs) \<subseteq> set rs" for n by (rule set_take_subset)
  moreover have "set (drop k rs) \<subseteq> set rs" for k by (rule set_drop_subset)
  ultimately show ?thesis
    by (cases lim; cases off) (simp_all add: paginate_def)
qed

lemma run_query_matches:
  assumes "r \<in> set (run_query q w)"
  shows "r \<in> set (tables w (q_table q)) \<and> matches (q_eq q) (q_is_null q) r"
proof -
  have "r \<in> set (order_rows (q_order q)
                  (filter (matches (q_eq q) (q_is_null q)) (tables w (q_table q))))"
    using assms set_paginate by (auto simp: run_query_def)
  then show ?thesis by (simp add: set_order_rows)
qed

lemma eq_filter_pair:
  "(\<lambda>(key, v) q. eq_filter key v q) = (\<lambda>a q. q\<lparr>q_eq := q_eq q @ [a]\<rparr>)"
  by (rule ext) (simp add: eq_filter_def split: prod.splits)

lemma fold_snoc_eq:
  "fold (\<lambda>a q. q\<lparr>q_eq := q_eq q @ [a]\<rparr>) fs q = q\<lparr>q_eq := q_eq q @ fs\<rparr>"
  by (induction fs arbitrary: q) simp_all

lemma fold_eq_filter:
  "fold (\<lambda>(key, v) q. eq_filter key v q) fs q = q\<lparr>q_eq := q_eq q @ fs\<rparr>"
  by (simp only: eq_filter_pair fold_snoc_eq)

lemma builder_fields:
  "q_table (eq_filter c v q) = q_table q" "q_is_null (eq_filter c v q) = q_is_null q"
  "q_limit (eq_filter c v q) = q_limit q" "q_offset (eq_filter c v q) = q_offset q"
  "q_order (eq_filter c v q) = q_order q" "q_eq (eq_filter c v q) = q_eq q @ [(c, v)]"
  "q_table (is_null c q) = q_table q" "q_is_null (is_null c q) = q_is_null q @ [c]"
  "q_limit (is_null c q) = q_limit q" "q_offset (is_null c q) = q_offset q"
  "q_order (is_null c q) = q_order q" "q_eq (is_null c q) = q_eq q"
  "q_table (order_by c a q) = q_table q" "q_is_null (order_by c a q) = q_is_null q"
  "q_limit (order_by c a q) = q_limit q" "q_offset (order_by c a q) = q_offset q"
  "q_order (order_by c a q) = Some (c, a)" "q_eq (order_by c a q) = q_eq q"
  "q_table (limit_to n q) = q_table q" "q_is_null (limit_to n q) = q_is_null q"
  "q_limit (limit_to n q) = Some n" "q_offset (limit_to n q) = q_offset q"
  "q_order (limit_to n q) = q_order q" "q_eq (limit_to n q) = q_eq q"
  "q_table (range_q k m q) = q_table q" "q_is_null (range_q k m q) = q_is_null q"
  "q_limit (range_q k m q) = Some (m - k + 1)" "q_offset (range_q k m q) = Some k"
  "q_order (range_q k m q) = q_order q" "q_eq (range_q k m q) = q_eq q"
  "q_table (from_select t cs) = t" "q_is_null (from_select t cs) = []"
  "q_limit (from_select t cs) = None" "q_offset (from_select t cs) = None"
  "q_order (from_select t cs) = None" "q_eq (from_select t cs) = []"
  by (simp_all add: eq_filter_def is_null_def order_by_def limit_to_def range_q_def
      from_select_def)

lemma fold_eq_filter_fields:
  "q_table (fold (\<lambda>(key, v) q. eq_filter key v q) fs q) = q_table q"
  "q_is_null (fold (\<lambda>(key, v) q. eq_filter key v q) fs q) = q_is_null q"
  "q_limit (fold (\<lambda>(key, v) q. eq_filter key v q) fs q) = q_limit q"
  "q_offset (fold (\<lambda>(key, v) q. eq_filter key v q) fs q) = q_offset q"
  "q_order (fold (\<lambda>(key, v) q. eq_filter key v q) fs q) = q_order q"
  "q_eq (fold (\<lambda>(key, v) q. eq_filter key v q) fs q) = q_eq q @ fs"
  by (simp_all add: fold_eq_filter)

lemma getAll_query_fields:
  "q_table (getAll_query f queryOptions owner) = tableName f"
  "q_is_null (getAll_query f queryOptions owner)
     = (if hasSoftDelete (config f) \<and> \<not> includeArchived (config f) then [''archived_at'']
        else [])"
  "q_limit (getAll_query f queryOptions owner)
     = (case Option.bind queryOptions limit of
          None \<Rightarrow> None | Some n \<Rightarrow> if n \<noteq> 0 then Some n else None)"
  "q_offset (getAll_query f queryOptions owner)
     = (case (Option.bind queryOptions offset, Option.bind queryOptions limit) of
          (Some k, Some n) \<Rightarrow> if k \<noteq> 0 \<and> n \<noteq> 0 then Some k else None
        | _ \<Rightarrow> None)"
  by (cases "Option.bind queryOptions limit"; cases "Option.bind queryOptions offset";
      cases "Option.bind queryOptions filters";
      simp add: getAll_query_def Let_def builder_fields fold_eq_filter_fields)+

lemma getAll_query_is_null:
  assumes "hasSoftDelete (config f)" and "\<not> includeArchived (config f)"
  shows "''archived_at'' \<in> set (q_is_null (getAll_query f queryOptions owner))"
  using assms by (simp add: getAll_query_fields(2))

lemma getAll_data:
  assumes "getAll f queryOptions clk w = (Inr data, w')"
  shows "\<exists>owner. fst (finalOwnerId f w) = Inr owner
            \<and> data = run_query (getAll_query f queryOptions owner) w"
proof (cases "finalOwnerId f w")
  case (Pair res w1)
  have tw1: "tables w1 = tables w"
    using Pair by (rule finalOwnerId_tablesD)
  show ?thesis
  proof (cases res)
    case (Inl e)
    then show ?thesis using assms Pair by (simp add: getAll_def)
  next
    case (Inr owner)
    show ?thesis
    proof (cases "hook_of f beforeRead")
      case None
      then have "data = run_query (getAll_query f queryOptions owner) w1"
        using assms Pair Inr by (simp add: getAll_def call_hook_def db_select_def)
      then have "data = run_query (getAll_query f queryOptions owner) w"
        using tw1 by (simp add: run_query_def)
      then show ?thesis using Pair Inr by auto
    next
      case (Some h)
      then have "data = run_query (getAll_query f queryOptions owner)
                          (log_event (EvHook ''beforeRead'') w1)"
        using assms Pair Inr
        by (auto simp: getAll_def call_hook_def db_select_def split: option.splits)
      moreover have "tables (log_event (EvHook ''beforeRead'') w1) = tables w"
        using tw1 by (simp add: log_event_def)
      ultimately have "data = run_query (getAll_query f queryOptions owner) w"
        by (simp add: run_query_def)
      then show ?thesis using Pair Inr by auto
    qed
  qed
qed

text \<open>
  C6. In a factory with soft delete enabled and \<open>includeArchived\<close> not configured, every
  row that \<open>getAll\<close> returns has a null \<open>archived_at\<close>, whatever the query options of the call.
\<close>

theorem getAll_excludes_archived:
  assumes "hasSoftDelete (config f)"
    and "\<not> includeArchived (config f)"
    and "getAll f queryOptions clk w = (Inr data, w')"
  shows "\<forall>r \<in> set data. col r ''archived_at'' = JNull"
proof
  fix r assume r: "r \<in> set data"
  obtain owner where d: "data = run_query (getAll_query f queryOptions owner) w"
    using getAll_data[OF assms(3)] by blast
  have "matches (q_eq (getAll_query f queryOptions owner))
          (q_is_null (getAll_query f queryOptions owner)) r"
    using r d run_query_matches by blast
  then have "list_all (\<lambda>c. col r c = JNull) (q_is_null (getAll_query f queryOptions owner))"
    by (simp add: matches_def)
  then show "col r ''archived_at'' = JNull"
    using getAll_query_is_null[OF assms(1,2), of queryOptions owner]
    by (simp add: list_all_iff)
qed

theorem getAll_excludes_archived_witness:
  "fst (getAll contactsAPI None (clock_at 2000) world_rows) = Inr [jane]
   \<and> col jane ''archived_at'' = JNull
   \<and> col old_jane ''owner_id'' = JStr ''alice''
   \<and> col old_jane ''archived_at'' = JStr ''2023-05-05T00:00:00.000Z''"
proof -
  have h1: "hasSoftDelete (config contactsAPI)" by code_simp
  have h2: "\<not> includeArchived (config contactsAPI)" by code_simp
  have d: "fst (getAll contactsAPI None (clock_at 2000) world_rows) = Inr [jane]" by code_simp
  have h3: "getAll contactsAPI None (clock_at 2000) world_rows
              = (Inr [jane], snd (getAll contactsAPI None (clock_at 2000) world_rows))"
    by (metis d prod.collapse)
  have o: "col old_jane ''owner_id'' = JStr ''alice''
           \<and> col old_jane ''archived_at'' = JStr ''2023-05-05T00:00:00.000Z''"
    by code_simp
  show ?thesis
    using getAll_excludes_archived[OF h1 h2 h3] d o by simp
qed

section \<open>Rejected input\<close>

lemma create_run_rejected:
  assumes "finalOwnerId f w0 = (Inr owner, w1)"
    and "insertSchema f (AList.update (ownerIdColumn (config f)) owner (processData formData))
           = Inl issues"
  shows "create_run f formData idempotencyKey clk w0
           = (Inl (ValidationError issues), log_event EvValidate w1)"
  using assms by (simp add: create_run_def)

lemma create_run_refused:
  assumes "finalOwnerId f w0 = (Inr owner, w1)"
    and "insertSchema f (AList.update (ownerIdColumn (config f)) owner (processData formData))
           = Inr validated"
    and "hook_of f beforeCreate = Some h"
    and "h validated \<lparr>ctx_operation = OpCreate, entityType = tableName f, entityId = None,
                       userId = owner, ctx_timestamp = iso clk, metadata = None\<rparr> = Some e"
  shows "create_run f formData idempotencyKey clk w0
           = (Inl e, log_event (EvHook ''beforeCreate'') (log_event EvValidate w1))"
  using assms by (simp add: create_run_def call_hook_def)

lemma update_run_rejected:
  assumes "finalOwnerId f w0 = (Inr owner, w1)"
    and "updateSchema f (processData formData) = Inl issues"
  shows "update_run f ident formData idempotencyKey clk w0
           = (Inl (ValidationError issues), log_event EvValidate w1)"
  using assms by (simp add: update_run_def)

lemma update_run_refused:
  assumes "finalOwnerId f w0 = (Inr owner, w1)"
    and "updateSchema f (processData formData) = Inr validated"
    and "hook_of f beforeUpdate = Some h"
    and "h ident validated (buildOperationContext OpUpdate (tableName f) (JStr ident) owner clk)
           = Some e"
  shows "\<exists>w3. update_run f ident formData idempotencyKey clk w0 = (Inl e, w3)
              \<and> tables w3 = tables w1
              \<and> filter is_write (trace w3) = filter is_write (trace w1)"
proof (cases "hook_of f afterUpdate")
  case None
  then show ?thesis
    using assms by (simp add: update_run_def call_hook_def log_event_def is_write_def)
next
  case (Some g)
  let ?q = "eq_filter (ownerIdColumn (config f)) owner
              (eq_filter ''id'' (JStr ident) (from_select (tableName f) ''*''))"
  obtain res w' where sel: "db_select_single ?q (log_event EvValidate w1) = (res, w')"
    by (cases "db_select_single ?q (log_event EvValidate w1)")
  have w': "w' = log_event (EvSelect (q_table ?q)) (log_event EvValidate w1)"
    using sel by (rule db_select_single_worldD)
  show ?thesis
    using assms Some sel
    by (cases res) (simp_all add: update_run_def call_hook_def log_event_def is_write_def w')
qed

text \<open>
  C7. Take a call of \<open>create\<close> or \<open>update\<close> that is not answered from the idempotency cache,
  by a caller whose identity resolves. When the schema rejects the (normalised) input, the
  call fails with the validation error carrying the schema's issues; when the schema accepts
  it and the before-hook throws, the call fails with the hook's own error. In both cases the
  tables are left as they were and no insert, update or delete was requested.
\<close>

theorem rejected_call_writes_nothing:
  assumes "\<not> truthy (fst (cacheLookup idempotencyKey clk w))"
    and "fst (finalOwnerId f w) = Inr owner"
  shows "(insertSchema f (AList.update (ownerIdColumn (config f)) owner (processData formData))
            = Inl issues \<longrightarrow>
          fst (create f formData idempotencyKey clk w) = Inl (ValidationError issues)
          \<and> tables (snd (create f formData idempotencyKey clk w)) = tables w
          \<and> filter is_write (trace (snd (create f formData idempotencyKey clk w)))
              = filter is_write (trace w))
       \<and> (insertSchema f (AList.update (ownerIdColumn (config f)) owner (processData formData))
            = Inr validated
          \<and> hook_of f beforeCreate = Some h
          \<and> h validated \<lparr>ctx_operation = OpCreate, entityType = tableName f, entityId = None,
                           userId = owner, ctx_timestamp = iso clk, metadata = None\<rparr> = Some e
          \<longrightarrow>
          fst (create f formData idempotencyKey clk w) = Inl e
          \<and> tables (snd (create f formData idempotencyKey clk w)) = tables w
          \<and> filter is_write (trace (snd (create f formData idempotencyKey clk w)))
              = filter is_write (trace w))
       \<and> (updateSchema f (processData formData) = Inl issues \<longrightarrow>
          fst (update f ident formData idempotencyKey clk w) = Inl (ValidationError issues)
          \<and> tables (snd (update f ident formData idempotencyKey clk w)) = tables w
          \<and> filter is_write (trace (snd (update f ident formData idempotencyKey clk w)))
              = filter is_write (trace w))
       \<and> (updateSchema f (processData formData) = Inr validated
          \<and> hook_of f beforeUpdate = Some h'
          \<and> h' ident validated
               (buildOperationContext OpUpdate (tableName f) (JStr ident) owner clk) = Some e
          \<longrightarrow>
          fst (update f ident formData idempotencyKey clk w) = Inl e
          \<and> tables (snd (update f ident formData idempotencyKey clk w)) = tables w
          \<and> filter is_write (trace (snd (update f ident formData idempotencyKey clk w)))
              = filter is_write (trace w))"
proof -
  obtain cached w0 where cl: "cacheLookup idempotencyKey clk w = (cached, w0)"
    by (cases "cacheLookup idempotencyKey clk w")
  obtain m where w0: "w0 = w\<lparr>idempotencyCache := m\<rparr>"
    using cacheLookup_world[of idempotencyKey clk w] cl by auto
  have miss: "\<not> truthy cached" using assms(1) cl by simp
  have cr: "create f formData idempotencyKey clk w = create_run f formData idempotencyKey clk w0"
    using cl miss by (simp add: create_def)
  have ur: "update f ident formData idempotencyKey clk w
              = update_run f ident formData idempotencyKey clk w0"
    using cl miss by (simp add: update_def)
  obtain w1 where fo: "finalOwnerId f w0 = (Inr owner, w1)"
    using assms(2) finalOwnerId_cache_upd[of f m w] w0 by (cases "finalOwnerId f w0") auto
  have tw1: "tables w1 = tables w"
    using finalOwnerId_tablesD[OF fo] w0 by simp
  have ww1: "filter is_write (trace w1) = filter is_write (trace w)"
    using finalOwnerId_writesD[OF fo] w0 by simp
  have c1: "fst (create f formData idempotencyKey clk w) = Inl (ValidationError issues)
          \<and> tables (snd (create f formData idempotencyKey clk w)) = tables w
          \<and> filter is_write (trace (snd (create f formData idempotencyKey clk w)))
              = filter is_write (trace w)"
    if "insertSchema f (AList.update (ownerIdColumn (config f)) owner (processData formData))
          = Inl issues"
    using create_run_rejected[OF fo that, of idempotencyKey clk] tw1 ww1
    by (simp add: cr log_event_def is_write_def)
  have c2: "fst (create f formData idempotencyKey clk w) = Inl e
          \<and> tables (snd (create f formData idempotencyKey clk w)) = tables w
          \<and> filter is_write (trace (snd (create f formData idempotencyKey clk w)))
              = filter is_write (trace w)"
    if "insertSchema f (AList.update (ownerIdColumn (config f)) owner (processData formData))
          = Inr validated"
      and "hook_of f beforeCreate = Some h"
      and "h validated \<lparr>ctx_operation = OpCreate, entityType = tableName f, entityId = None,
                         userId = owner, ctx_timestamp = iso clk, metadata = None\<rparr> = Some e"
    using create_run_refused[OF fo that, of idempotencyKey] tw1 ww1
    by (simp add: cr log_event_def is_write_def)
  have u1: "fst (update f ident formData idempotencyKey clk w) = Inl (ValidationError issues)
          \<and> tables (snd (update f ident formData idempotencyKey clk w)) = tables w
          \<and> filter is_write (trace (snd (update f ident formData idempotencyKey clk w)))
              = filter is_write (trace w)"
    if "updateSchema f (processData formData) = Inl issues"
    using update_run_rejected[OF fo that, of ident idempotencyKey clk] tw1 ww1
    by (simp add: ur log_event_def is_write_def)
  have u2: "fst (update f ident formData idempotencyKey clk w) = Inl e
          \<and> tables (snd (update f ident formData idempotencyKey clk w)) = tables w
          \<and> filter is_write (trace (snd (update f ident formData idempotencyKey clk w)))
              = filter is_write (trace w)"
    if "updateSchema f (processData formData) = Inr validated"
      and "hook_of f beforeUpdate = Some h'"
      and "h' ident validated
             (buildOperationContext OpUpdate (tableName f) (JStr ident) owner clk) = Some e"
    using update_run_refused[OF fo that, of idempotencyKey] tw1 ww1
    by (auto simp: ur)
  show ?thesis
    using c1 c2 u1 u2 by blast
qed


theorem rejected_call_writes_nothing_witness:
  "fst (create guardedAPI [(''name'', JStr [])] None (clock_at 2000) world_rows)
     = Inl (ValidationError [''name: required''])
   \<and> tables (snd (create guardedAPI [(''name'', JStr [])] None (clock_at 2000) world_rows))
     = tables world_rows
   \<and> fst (update guardedAPI ''c1'' [(''name'', JStr [])] None (clock_at 2000) world_rows)
     = Inl (ValidationError [''name: required''])
   \<and> tables (snd (update guardedAPI ''c1'' [(''name'', JStr [])] None (clock_at 2000) world_rows))
     = tables world_rows
   \<and> fst (create guardedAPI [(''name'', JStr ''blocked'')] None (clock_at 2000) world_rows)
     = Inl (HookError ''denied'')
   \<and> tables (snd (create guardedAPI [(''name'', JStr ''blocked'')] None (clock_at 2000)
                    world_rows)) = tables world_rows
   \<and> fst (update guardedAPI ''c1'' [(''name'', JStr ''blocked'')] None (clock_at 2000) world_rows)
     = Inl (HookError ''denied'')
   \<and> tables (snd (update guardedAPI ''c1'' [(''name'', JStr ''blocked'')] None (clock_at 2000)
                    world_rows)) = tables world_rows"
proof -
  have miss: "\<not> truthy (fst (cacheLookup None (clock_at 2000) world_rows))"
    by (simp add: cacheLookup_def)
  have own: "fst (finalOwnerId guardedAPI world_rows) = Inr (JStr ''alice'')"
    by code_simp
  have i1: "insertSchema guardedAPI
              (AList.update (ownerIdColumn (config guardedAPI)) (JStr ''alice'')
                 (processData [(''name'', JStr [])])) = Inl [''name: required'']"
    by code_simp
  have u1: "updateSchema guardedAPI (processData [(''name'', JStr [])]) = Inl [''name: required'']"
    by code_simp
  have i2: "insertSchema guardedAPI
              (AList.update (ownerIdColumn (config guardedAPI)) (JStr ''alice'')
                 (processData [(''name'', JStr ''blocked'')]))
            = Inr [(''name'', JStr ''blocked''), (''owner_id'', JStr ''alice'')]"
    by code_simp
  have u2: "updateSchema guardedAPI (processData [(''name'', JStr ''blocked'')])
            = Inr [(''name'', JStr ''blocked'')]"
    by code_simp
  have hc: "hook_of guardedAPI beforeCreate = Some (\<lambda>v ctx. refuse_blocked v)"
    by (simp add: guardedAPI_def make_factory_def hook_of_def default_options_def deny_hooks_def)
  have hu: "hook_of guardedAPI beforeUpdate = Some (\<lambda>i v ctx. refuse_blocked v)"
    by (simp add: guardedAPI_def make_factory_def hook_of_def default_options_def deny_hooks_def)
  have r1: "refuse_blocked [(''name'', JStr ''blocked''), (''owner_id'', JStr ''alice'')]
            = Some (HookError ''denied'')"
    by code_simp
  have r2: "refuse_blocked [(''name'', JStr ''blocked'')] = Some (HookError ''denied'')"
    by code_simp
  note empty_name =
    rejected_call_writes_nothing[OF miss own, of "[(''name'', JStr [])]" "[''name: required'']"
      _ _ _ "''c1''"]
  note blocked_name =
    rejected_call_writes_nothing[OF miss own, of "[(''name'', JStr ''blocked'')]" _
      "[(''name'', JStr ''blocked''), (''owner_id'', JStr ''alice'')]"
      "\<lambda>v ctx. refuse_blocked v" "HookError ''denied''" "''c1''"]
  note blocked_update =
    rejected_call_writes_nothing[OF miss own, of "[(''name'', JStr ''blocked'')]" _
      "[(''name'', JStr ''blocked'')]" _ "HookError ''denied''" "''c1''"
      "\<lambda>i v ctx. refuse_blocked v"]
  show ?thesis
    using empty_name blocked_name blocked_update i1 u1 i2 u2 hc hu r1 r2
    by simp
qed

section \<open>Pagination\<close>

lemma getAll_query_page:
  assumes "Option.bind queryOptions limit \<noteq> Some 0"
  shows "q_limit (getAll_query f queryOptions owner) = Option.bind queryOptions limit"
    and "q_offset (getAll_query f queryOptions owner) =
           (case (Option.bind queryOptions offset, Option.bind queryOptions limit) of
              (Some k, Some n) \<Rightarrow> if k \<noteq> 0 then Some k else None
            | _ \<Rightarrow> None)"
    and "q_table (getAll_query f queryOptions owner) = tableName f"
  using assms
  by (cases "Option.bind queryOptions limit"; cases "Option.bind queryOptions offset";
      simp add: getAll_query_fields)+

text \<open>
  C5 as stated fails at offset 0: with limit 2 and offset 0 both present, \<open>getAll\<close> does
  not call \<open>range\<close>. The request carries no offset, and it is the very request built when
  only the limit is given; had \<open>range\<close> been applied, the request would carry offset 0.
\<close>

theorem range_skipped_at_offset_zero:
  "q_offset (getAll_query contactsAPI (Some (page (Some 2) (Some 0))) (JStr ''alice'')) = None
   \<and> getAll_query contactsAPI (Some (page (Some 2) (Some 0))) (JStr ''alice'')
       = getAll_query contactsAPI (Some (page (Some 2) None)) (JStr ''alice'')
   \<and> getAll_query contactsAPI (Some (page (Some 2) (Some 0))) (JStr ''alice'')
       \<noteq> range_q 0 (0 + 2 - 1)
            (getAll_query contactsAPI (Some (page (Some 2) (Some 0))) (JStr ''alice''))"
  by (simp add: getAll_query_def Let_def page_def range_q_def limit_to_def order_by_def
      is_null_def eq_filter_def from_select_def contactsAPI_def make_factory_def opt_or_def
      determineOwnerColumn_def Object_prototype_member_def)

text \<open>
  C5, amended. Let the limit of a list call be absent or positive, and let \<open>rows\<close> be the
  caller's rows after the filters, in the requested order. \<open>range\<close> is applied, with the
  bounds \<open>offset\<close> and \<open>offset + limit - 1\<close>, exactly when limit and offset are both present
  and the offset is not 0. With a limit and an offset of 0 or none, only \<open>limit\<close> is applied.
  In both cases the call returns the rows at positions \<open>offset\<close> to \<open>offset + limit - 1\<close>
  (counting an absent offset as 0); without a limit it returns all the rows, whatever the
  offset.
\<close>

theorem getAll_pagination:
  assumes "getAll f queryOptions clk w = (Inr data, w')"
    and "Option.bind queryOptions limit \<noteq> Some 0"
  shows "\<exists>owner. fst (finalOwnerId f w) = Inr owner
          \<and> q_offset (getAll_query f queryOptions owner) =
              (case (Option.bind queryOptions offset, Option.bind queryOptions limit) of
                 (Some k, Some n) \<Rightarrow> if k \<noteq> 0 then Some k else None
               | _ \<Rightarrow> None)
          \<and> (\<forall>k n. Option.bind queryOptions offset = Some k \<and> k \<noteq> 0
                   \<and> Option.bind queryOptions limit = Some n \<longrightarrow>
                 getAll_query f queryOptions owner
                   = range_q k (k + n - 1) (getAll_query f queryOptions owner))
          \<and> data =
              (let q = getAll_query f queryOptions owner;
                   rows = order_rows (q_order q)
                            (filter (matches (q_eq q) (q_is_null q)) (tables w (tableName f)))
               in case Option.bind queryOptions limit of
                    None \<Rightarrow> rows
                  | Some n \<Rightarrow>
                      take n (drop (case Option.bind queryOptions offset of
                                      None \<Rightarrow> 0 | Some k \<Rightarrow> k) rows))"
proof -
  obtain owner where o: "fst (finalOwnerId f w) = Inr owner"
    and d: "data = run_query (getAll_query f queryOptions owner) w"
    using getAll_data[OF assms(1)] by blast
  let ?q = "getAll_query f queryOptions owner"
  note pg = getAll_query_page[OF assms(2), of f owner]
  have rng: "?q = range_q k (k + n - 1) ?q"
    if "Option.bind queryOptions offset = Some k \<and> k \<noteq> 0
        \<and> Option.bind queryOptions limit = Some n" for k n
  proof -
    have "n \<noteq> 0" using that assms(2) by auto
    then have "k + n - 1 - k + 1 = n" by simp
    then show ?thesis using that pg by (simp add: range_q_def)
  qed
  have "data =
          (let rows = order_rows (q_order ?q)
                        (filter (matches (q_eq ?q) (q_is_null ?q)) (tables w (tableName f)))
           in case Option.bind queryOptions limit of
                None \<Rightarrow> rows
              | Some n \<Rightarrow>
                  take n (drop (case Option.bind queryOptions offset of
                                  None \<Rightarrow> 0 | Some k \<Rightarrow> k) rows))"
    using pg by (auto simp: d run_query_def paginate_def Let_def split: option.splits)
  then show ?thesis using o pg(2) rng by (auto simp: Let_def)
qed

theorem getAll_pagination_witness:
  "fst (getAll contactsAPI (Some (page (Some 2) (Some 1))) (clock_at 2000) world_list)
     = Inr [item ''c'' 3, item ''b'' 2]
   \<and> fst (getAll contactsAPI (Some (page (Some 2) (Some 0))) (clock_at 2000) world_list)
     = Inr [item ''d'' 4, item ''c'' 3]
   \<and> fst (getAll contactsAPI (Some (page None (Some 1))) (clock_at 2000) world_list)
     = Inr [item ''d'' 4, item ''c'' 3, item ''b'' 2, item ''a'' 1]"
proof -
  have res: "fst (getAll contactsAPI qo (clock_at 2000) world_list)
               = Inr (run_query (getAll_query contactsAPI qo (JStr ''alice'')) world_list)" for qo
  proof -
    have "finalOwnerId contactsAPI world_list = (Inr (JStr ''alice''), world_list)"
      by (simp add: finalOwnerId_def getContext_def auth_getUser_def contactsAPI_def
          make_factory_def opt_or_def world_list_def world0_def)
    moreover have "hook_of contactsAPI beforeRead = None"
      by (simp add: hook_of_def contactsAPI_def make_factory_def)
    ultimately show ?thesis
      by (simp add: getAll_def call_hook_def db_select_def)
  qed
  have call: "getAll contactsAPI qo (clock_at 2000) world_list
                = (Inr (run_query (getAll_query contactsAPI qo (JStr ''alice'')) world_list),
                   snd (getAll contactsAPI qo (clock_at 2000) world_list))" for qo
    by (metis res prod.collapse)
  have ow: "fst (finalOwnerId contactsAPI world_list) = Inr (JStr ''alice'')" by code_simp
  have l1: "Option.bind (Some (page (Some 2) (Some 1))) limit \<noteq> Some 0" by (simp add: page_def)
  have l2: "Option.bind (Some (page (Some 2) (Some 0))) limit \<noteq> Some 0" by (simp add: page_def)
  have l3: "Option.bind (Some (page None (Some 1))) limit \<noteq> Some 0" by (simp add: page_def)
  have rows: "order_rows (Some (''created_at'', False))
                (filter (matches [(''owner_id'', JStr ''alice'')] [''archived_at''])
                   (tables world_list ''contacts''))
              = [item ''d'' 4, item ''c'' 3, item ''b'' 2, item ''a'' 1]"
    by code_simp
  have q: "q_order (getAll_query contactsAPI (Some (page lim off)) (JStr ''alice''))
             = Some (''created_at'', False)
           \<and> q_eq (getAll_query contactsAPI (Some (page lim off)) (JStr ''alice''))
             = [(''owner_id'', JStr ''alice'')]
           \<and> q_is_null (getAll_query contactsAPI (Some (page lim off)) (JStr ''alice''))
             = [''archived_at'']" for lim off
    by (auto simp: getAll_query_def Let_def page_def range_q_def limit_to_def order_by_def
      is_null_def eq_filter_def from_select_def contactsAPI_def make_factory_def opt_or_def
      determineOwnerColumn_def Object_prototype_member_def split: option.splits)
  have t: "tableName contactsAPI = ''contacts''" by code_simp
  have sel: "limit (page lim off) = lim" "offset (page lim off) = off" for lim off
    by (simp_all add: page_def)
  show ?thesis
    using getAll_pagination[OF call l1] getAll_pagination[OF call l2]
      getAll_pagination[OF call l3]
    by (simp add: ow q rows t Let_def sel res)
qed

section \<open>Ids outside the caller's scope\<close>

lemma run_query_scope:
  "run_query (eq_filter oc owner (eq_filter ''id'' (JStr ident) (from_select t cs))) w
     = filter (matches [(''id'', JStr ident), (oc, owner)] []) (tables w t)"
  by (simp add: run_query_def builder_fields order_rows_def paginate_def)

lemma select_single_no_match:
  assumes "filter (matches [(''id'', JStr ident), (oc, owner)] []) (tables w t) = []"
  shows "db_select_single
           (eq_filter oc owner (eq_filter ''id'' (JStr ident) (from_select t cs))) w
         = (Inl NotFound, log_event (EvSelect t) w)"
  using assms by (simp add: db_select_single_def run_query_scope builder_fields)

lemma db_update_single_no_match:
  assumes "filter (matches eqs []) (tables w t) = []"
  shows "db_update_single t patch eqs w = (Inl NotFound, log_event (EvUpdate t) w)"
  using assms by (simp add: db_update_single_def)

lemma getOne_no_match:
  assumes "fst (finalOwnerId f w) = Inr owner"
    and "filter (matches [(''id'', JStr ident), (ownerIdColumn (config f), owner)] [])
           (tables w (tableName f)) = []"
  shows "fst (getOne f ident w) = Inl NotFound"
proof -
  obtain w1 where fo: "finalOwnerId f w = (Inr owner, w1)"
    using assms(1) by (cases "finalOwnerId f w") auto
  have "tables w1 = tables w" using fo by (rule finalOwnerId_tablesD)
  then have "filter (matches [(''id'', JStr ident), (ownerIdColumn (config f), owner)] [])
               (tables w1 (tableName f)) = []"
    using assms(2) by simp
  then show ?thesis
    using fo by (simp add: getOne_def select_single_no_match)
qed

lemma update_run_no_match:
  assumes fo: "finalOwnerId f w0 = (Inr owner, w1)"
    and none: "filter (matches [(''id'', JStr ident), (ownerIdColumn (config f), owner)] [])
           (tables w0 (tableName f)) = []"
  shows "(fst (update_run f ident formData idempotencyKey clk w0) = Inl NotFound
          \<or> (\<exists>issues. updateSchema f (processData formData) = Inl issues
                \<and> fst (update_run f ident formData idempotencyKey clk w0)
                    = Inl (ValidationError issues))
          \<or> (\<exists>validated h e. updateSchema f (processData formData) = Inr validated
                \<and> hook_of f beforeUpdate = Some h
                \<and> h ident validated
                     (buildOperationContext OpUpdate (tableName f) (JStr ident) owner clk)
                   = Some e
                \<and> fst (update_run f ident formData idempotencyKey clk w0) = Inl e))
       \<and> tables (snd (update_run f ident formData idempotencyKey clk w0)) = tables w0"
proof -
  have tw1: "tables w1 = tables w0" using fo by (rule finalOwnerId_tablesD)
  show ?thesis
  proof (cases "updateSchema f (processData formData)")
    case (Inl issues)
    then show ?thesis
      using update_run_rejected[OF fo Inl, of ident idempotencyKey clk] tw1
      by (simp add: log_event_def)
  next
    case (Inr validated)
    let ?ctx = "buildOperationContext OpUpdate (tableName f) (JStr ident) owner clk"
    let ?scope = "[(''id'', JStr ident), (ownerIdColumn (config f), owner)]"
    define w2 where
      "w2 = (case hook_of f afterUpdate of
               None \<Rightarrow> log_event EvValidate w1
             | Some g \<Rightarrow> log_event (EvSelect (tableName f)) (log_event EvValidate w1))"
    have tw2: "tables w2 = tables w0"
      using tw1 by (simp add: w2_def log_event_def split: option.splits)
    have pre: "(case hook_of f afterUpdate of
                  None \<Rightarrow> (None, log_event EvValidate w1)
                | Some h \<Rightarrow>
                    (case db_select_single
                            (eq_filter (ownerIdColumn (config f)) owner
                               (eq_filter ''id'' (JStr ident) (from_select (tableName f) ''*'')))
                            (log_event EvValidate w1) of
                       (Inl e, w') \<Rightarrow> (None, w')
                     | (Inr prev, w') \<Rightarrow> (Some prev, w'))) = (None, w2)"
    proof (cases "hook_of f afterUpdate")
      case None
      then show ?thesis by (simp add: w2_def)
    next
      case (Some g)
      have "filter (matches ?scope []) (tables (log_event EvValidate w1) (tableName f)) = []"
        using none tw1 by (simp add: log_event_def)
      then show ?thesis
        using Some by (simp add: w2_def select_single_no_match)
    qed
    have none2: "filter (matches ?scope []) (tables w2 (tableName f)) = []"
      using none tw2 by simp
    show ?thesis
    proof (cases "hook_of f beforeUpdate")
      case None
      have "update_run f ident formData idempotencyKey clk w0
              = (Inl NotFound, log_event (EvUpdate (tableName f)) w2)"
        using fo Inr None pre none2
        by (simp add: update_run_def call_hook_def db_update_single_no_match)
      then show ?thesis using tw2 by (simp add: log_event_def)
    next
      case (Some h)
      show ?thesis
      proof (cases "h ident validated ?ctx")
        case None
        have "update_run f ident formData idempotencyKey clk w0
                = (Inl NotFound,
                   log_event (EvUpdate (tableName f)) (log_event (EvHook ''beforeUpdate'') w2))"
          using fo Inr Some None pre none2 tw2
          by (simp add: update_run_def call_hook_def db_update_single_no_match log_event_def)
        then show ?thesis using tw2 by (simp add: log_event_def)
      next
        case (Some e)
        have "update_run f ident formData idempotencyKey clk w0
                = (Inl e, log_event (EvHook ''beforeUpdate'') w2)"
          using fo Inr \<open>hook_of f beforeUpdate = Some h\<close> Some pre
          by (simp add: update_run_def call_hook_def)
        then show ?thesis
          using tw2 Inr \<open>hook_of f beforeUpdate = Some h\<close> Some by (simp add: log_event_def)
      qed
    qed
  qed
qed


lemma deleteRecord_no_match:
  assumes fo: "finalOwnerId f w = (Inr owner, w1)"
    and none: "filter (matches [(''id'', JStr ident), (ownerIdColumn (config f), owner)] [])
           (tables w (tableName f)) = []"
  shows "(fst (deleteRecord f ident clk w) = Inr ()
          \<or> (\<exists>h e. hook_of f beforeDelete = Some h
                \<and> h ident (buildOperationContext OpDelete (tableName f) (JStr ident) owner clk)
                   = Some e
                \<and> fst (deleteRecord f ident clk w) = Inl e))
       \<and> tables (snd (deleteRecord f ident clk w)) = tables w
       \<and> filter is_hook (trace (snd (deleteRecord f ident clk w)))
           = filter is_hook (trace w) @
               (case hook_of f beforeDelete of None \<Rightarrow> [] | Some h \<Rightarrow> [EvHook ''beforeDelete''])"
proof -
  let ?ctx = "buildOperationContext OpDelete (tableName f) (JStr ident) owner clk"
  let ?scope = "[(''id'', JStr ident), (ownerIdColumn (config f), owner)]"
  have tw1: "tables w1 = tables w" using fo by (rule finalOwnerId_tablesD)
  have trw1: "filter is_hook (trace w1) = filter is_hook (trace w)"
    using fo by (rule finalOwnerId_hooksD)
  define w2 where
    "w2 = (case hook_of f afterDelete of
             None \<Rightarrow> w1 | Some g \<Rightarrow> log_event (EvSelect (tableName f)) w1)"
  have tw2: "tables w2 = tables w"
    using tw1 by (simp add: w2_def log_event_def split: option.splits)
  have trw2: "filter is_hook (trace w2) = filter is_hook (trace w)"
    using trw1 by (simp add: w2_def log_event_def is_hook_def split: option.splits)
  have pre: "(case hook_of f afterDelete of
                None \<Rightarrow> (None, w1)
              | Some h \<Rightarrow>
                  (case db_select_single
                          (eq_filter (ownerIdColumn (config f)) owner
                             (eq_filter ''id'' (JStr ident) (from_select (tableName f) ''*''))) w1 of
                     (Inl e, w') \<Rightarrow> (None, w')
                   | (Inr d, w') \<Rightarrow> (Some d, w'))) = (None, w2)"
  proof (cases "hook_of f afterDelete")
    case None
    then show ?thesis by (simp add: w2_def)
  next
    case (Some g)
    have "filter (matches ?scope []) (tables w1 (tableName f)) = []"
      using none tw1 by simp
    then show ?thesis
      using Some by (simp add: w2_def select_single_no_match)
  qed
  have gone: "(if hasSoftDelete (config f)
               then db_update (tableName f)
                      [(''archived_at'', JStr (iso clk)), (''status'', JStr ''archived'')] ?scope w3
               else db_delete (tableName f) ?scope w3)
              = log_event (if hasSoftDelete (config f) then EvUpdate (tableName f)
                           else EvDelete (tableName f)) w3"
    if "tables w3 = tables w" for w3
    using none that by (simp add: db_update_no_match db_delete_no_match)
  show ?thesis
  proof (cases "hook_of f beforeDelete")
    case None
    have "deleteRecord f ident clk w
            = (Inr (), revalidateAllPaths (revalidatePaths (config f))
                         (log_event (if hasSoftDelete (config f) then EvUpdate (tableName f)
                                     else EvDelete (tableName f)) w2))"
      using fo None pre gone[OF tw2]
      by (simp add: deleteRecord_def call_hook_def Let_def)
    then show ?thesis
      using tw2 trw2 None by (simp add: revalidateAllPaths_def log_event_def is_hook_def)
  next
    case (Some h)
    show ?thesis
    proof (cases "h ident ?ctx")
      case None
      have t3: "tables (log_event (EvHook ''beforeDelete'') w2) = tables w"
        using tw2 by (simp add: log_event_def)
      have "deleteRecord f ident clk w
              = (Inr (), revalidateAllPaths (revalidatePaths (config f))
                           (log_event (if hasSoftDelete (config f) then EvUpdate (tableName f)
                                       else EvDelete (tableName f))
                              (log_event (EvHook ''beforeDelete'') w2)))"
        using fo Some None pre gone[OF t3]
        by (simp add: deleteRecord_def call_hook_def Let_def)
      then show ?thesis
        using tw2 trw2 Some by (simp add: revalidateAllPaths_def log_event_def is_hook_def)
    next
      case (Some e)
      have "deleteRecord f ident clk w = (Inl e, log_event (EvHook ''beforeDelete'') w2)"
        using fo \<open>hook_of f beforeDelete = Some h\<close> Some pre
        by (simp add: deleteRecord_def call_hook_def Let_def)
      then show ?thesis
        using tw2 trw2 \<open>hook_of f beforeDelete = Some h\<close> Some
        by (simp add: log_event_def is_hook_def)
    qed
  qed
qed





text \<open>
  C3 as stated fails for \<open>delete\<close>: the contact \<open>c2\<close> belongs to \<open>bob\<close>, no row matches
  the id under \<open>alice\<close>'s scope, and \<open>alice\<close>'s delete of \<open>c2\<close> returns normally instead of
  failing. It also fails for an \<open>update\<close> that is answered from the idempotency cache: after
  \<open>bob\<close> has updated \<open>c2\<close> under the key \<open>k-bob\<close>, \<open>alice\<close>'s update of \<open>c2\<close> with that key
  returns \<open>bob\<close>'s row.
\<close>

theorem foreign_delete_returns_normally:
  "fst (finalOwnerId contactsAPI world_rows) = Inr (JStr ''alice'')
   \<and> filter (matches [(''id'', JStr ''c2''), (''owner_id'', JStr ''alice'')] [])
        (tables world_rows ''contacts'') = []
   \<and> fst (deleteRecord contactsAPI ''c2'' (clock_at 2000) world_rows) = Inr ()
   \<and> fst (finalOwnerId contactsAPI world_after_bob) = Inr (JStr ''alice'')
   \<and> filter (matches [(''id'', JStr ''c2''), (''owner_id'', JStr ''alice'')] [])
        (tables world_after_bob ''contacts'') = []
   \<and> fst (update contactsAPI ''c2'' [(''name'', JStr ''Mine'')] (Some ''k-bob'') (clock_at 2000)
            world_after_bob)
       = Inr (JObj [(''id'', JStr ''c2''), (''owner_id'', JStr ''bob''), (''name'', JStr ''Bobby''),
                    (''status'', JStr ''active''), (''archived_at'', JNull)])"
  by code_simp

text \<open>
  C3, amended. Let the caller's identity resolve to \<open>owner\<close> and let no row of the table
  match the id under the owner's scope. Then \<open>getOne\<close> fails with the store's not-found
  error. \<open>update\<close>, unless it is answered from the idempotency cache, fails and writes
  nothing: with the not-found error, or earlier with the validation error when the schema
  rejects the input, or with the hook's error when \<open>beforeUpdate\<close> throws. \<open>delete\<close> does
  not fail with not-found: it returns normally (or fails with the error \<open>beforeDelete\<close>
  throws), changes no row and does not invoke \<open>afterDelete\<close>. None of them returns a row.
\<close>

theorem unmatched_scope_outcomes:
  assumes "fst (finalOwnerId f w) = Inr owner"
    and "filter (matches [(''id'', JStr ident), (ownerIdColumn (config f), owner)] [])
           (tables w (tableName f)) = []"
  shows "fst (getOne f ident w) = Inl NotFound
       \<and> (\<not> truthy (fst (cacheLookup idempotencyKey clk w)) \<longrightarrow>
            (fst (update f ident formData idempotencyKey clk w) = Inl NotFound
             \<or> (\<exists>issues. updateSchema f (processData formData) = Inl issues
                   \<and> fst (update f ident formData idempotencyKey clk w)
                       = Inl (ValidationError issues))
             \<or> (\<exists>validated h e. updateSchema f (processData formData) = Inr validated
                   \<and> hook_of f beforeUpdate = Some h
                   \<and> h ident validated
                        (buildOperationContext OpUpdate (tableName f) (JStr ident) owner clk)
                      = Some e
                   \<and> fst (update f ident formData idempotencyKey clk w) = Inl e))
            \<and> tables (snd (update f ident formData idempotencyKey clk w)) = tables w)
       \<and> (fst (deleteRecord f ident clk w) = Inr ()
           \<or> (\<exists>h e. hook_of f beforeDelete = Some h
                 \<and> h ident (buildOperationContext OpDelete (tableName f) (JStr ident) owner clk)
                    = Some e
                 \<and> fst (deleteRecord f ident clk w) = Inl e))
       \<and> tables (snd (deleteRecord f ident clk w)) = tables w
       \<and> filter is_hook (trace (snd (deleteRecord f ident clk w)))
           = filter is_hook (trace w) @
               (case hook_of f beforeDelete of None \<Rightarrow> [] | Some h \<Rightarrow> [EvHook ''beforeDelete''])"
proof -
  obtain w1 where fo: "finalOwnerId f w = (Inr owner, w1)"
    using assms(1) by (cases "finalOwnerId f w") auto
  have upd: "(fst (update f ident formData idempotencyKey clk w) = Inl NotFound
             \<or> (\<exists>issues. updateSchema f (processData formData) = Inl issues
                   \<and> fst (update f ident formData idempotencyKey clk w)
                       = Inl (ValidationError issues))
             \<or> (\<exists>validated h e. updateSchema f (processData formData) = Inr validated
                   \<and> hook_of f beforeUpdate = Some h
                   \<and> h ident validated
                        (buildOperationContext OpUpdate (tableName f) (JStr ident) owner clk)
                      = Some e
                   \<and> fst (update f ident formData idempotencyKey clk w) = Inl e))
            \<and> tables (snd (update f ident formData idempotencyKey clk w)) = tables w"
    if miss: "\<not> truthy (fst (cacheLookup idempotencyKey clk w))"
  proof -
    obtain cached w0 where cl: "cacheLookup idempotencyKey clk w = (cached, w0)"
      by (cases "cacheLookup idempotencyKey clk w")
    obtain m where w0: "w0 = w\<lparr>idempotencyCache := m\<rparr>"
      using cacheLookup_world[of idempotencyKey clk w] cl by auto
    have ur: "update f ident formData idempotencyKey clk w
                = update_run f ident formData idempotencyKey clk w0"
      using cl miss by (simp add: update_def)
    obtain w1' where fo0: "finalOwnerId f w0 = (Inr owner, w1')"
      using assms(1) finalOwnerId_cache_upd[of f m w] w0 by (cases "finalOwnerId f w0") auto
    have none0: "filter (matches [(''id'', JStr ident), (ownerIdColumn (config f), owner)] [])
                   (tables w0 (tableName f)) = []"
      using assms(2) w0 by simp
    have "tables w0 = tables w" using w0 by simp
    then show ?thesis
      using update_run_no_match[OF fo0 none0, of formData idempotencyKey clk]
      by (simp only: ur)
  qed
  show ?thesis
    using getOne_no_match[OF assms] upd deleteRecord_no_match[OF fo assms(2), of clk]
    by blast
qed

theorem unmatched_scope_outcomes_witness:
  "fst (getOne contactsAPI ''c2'' world_rows) = Inl NotFound
   \<and> fst (update contactsAPI ''c2'' [(''name'', JStr ''Mine'')] None (clock_at 2000) world_rows)
       = Inl NotFound
   \<and> tables (snd (update contactsAPI ''c2'' [(''name'', JStr ''Mine'')] None (clock_at 2000)
                    world_rows)) = tables world_rows
   \<and> fst (deleteRecord contactsAPI ''c2'' (clock_at 2000) world_rows) = Inr ()
   \<and> tables (snd (deleteRecord contactsAPI ''c2'' (clock_at 2000) world_rows))
       = tables world_rows"
proof -
  have h1: "fst (finalOwnerId contactsAPI world_rows) = Inr (JStr ''alice'')" by code_simp
  have h2: "filter (matches [(''id'', JStr ''c2''),
                             (ownerIdColumn (config contactsAPI), JStr ''alice'')] [])
              (tables world_rows (tableName contactsAPI)) = []" by code_simp
  have miss: "\<not> truthy (fst (cacheLookup None (clock_at 2000) world_rows))"
    by (simp add: cacheLookup_def)
  have s: "updateSchema contactsAPI (processData [(''name'', JStr ''Mine'')])
             = Inr [(''name'', JStr ''Mine'')]" by code_simp
  have hu: "hook_of contactsAPI beforeUpdate = None"
    by (simp add: hook_of_def contactsAPI_def make_factory_def)
  have hd: "hook_of contactsAPI beforeDelete = None"
    by (simp add: hook_of_def contactsAPI_def make_factory_def)
  show ?thesis
    using unmatched_scope_outcomes[OF h1 h2, of None "clock_at 2000" "[(''name'', JStr ''Mine'')]"]
      miss
    by (simp add: s hu hd)
qed

section \<open>One cache for all factories\<close>

text \<open>
  C4 as stated fails: the result that the contacts factory stored under \<open>key-1\<close> is
  returned by \<open>create\<close> of the projects factory called with the same key one second later;
  nothing is inserted into \<open>projects\<close>.
\<close>

theorem projects_create_returns_contacts_row:
  "tableName contactsAPI = ''contacts'' \<and> tableName projectsAPI = ''projects''
   \<and> fst (create contactsAPI [(''name'', JStr ''Jane'')] (Some ''key-1'') (clock_at 1000) world0)
       = Inr (JObj jane_created)
   \<and> fst (create projectsAPI [(''title'', JStr ''Launch'')] (Some ''key-1'') (clock_at 2000)
            world_created) = Inr (JObj jane_created)
   \<and> tables (snd (create projectsAPI [(''title'', JStr ''Launch'')] (Some ''key-1'')
                    (clock_at 2000) world_created)) ''projects'' = []"
  by code_simp

text \<open>
  C4, amended. The cache is one module-level map shared by all factory instances. When
  \<open>create\<close> or \<open>update\<close> of a factory \<open>fA\<close> has returned \<open>r\<close> for a call with a key, the cache
  holds \<open>r\<close> under that key (stamped with the time of the store when the call was executed
  and not itself a hit), and \<open>create\<close> and \<open>update\<close> of any factory \<open>fB\<close> called with the key
  while the entry is within the TTL return \<open>r\<close> without touching the store.
\<close>

theorem cache_shared_by_all_factories:
  assumes "key \<noteq> []"
    and "create fA formDataA (Some key) clk0 w0 = (Inr r, w1)
         \<or> update fA identA formDataA (Some key) clk0 w0 = (Inr r, w1)"
  shows "\<exists>e. DAList.lookup (idempotencyCache w1) key = Some e \<and> result e = r
           \<and> (\<not> truthy (fst (cacheLookup (Some key) clk0 w0)) \<longrightarrow> timestamp e = now3 clk0)
           \<and> (\<forall>clk. now1 clk - timestamp e \<le> CACHE_TTL_MS
                      \<and> now2 clk - timestamp e \<le> CACHE_TTL_MS \<longrightarrow>
                  fst (create fB formDataB (Some key) clk w1) = Inr r
                  \<and> fst (update fB identB formDataB (Some key) clk w1) = Inr r
                  \<and> tables (snd (create fB formDataB (Some key) clk w1)) = tables w1
                  \<and> tables (snd (update fB identB formDataB (Some key) clk w1)) = tables w1
                  \<and> trace (snd (create fB formDataB (Some key) clk w1)) = trace w1
                  \<and> trace (snd (update fB identB formDataB (Some key) clk w1)) = trace w1)"
proof -
  obtain e where e: "DAList.lookup (idempotencyCache w1) key = Some e" "result e = r" "truthy r"
    and ts: "\<not> truthy (fst (cacheLookup (Some key) clk0 w0)) \<longrightarrow> timestamp e = now3 clk0"
    using stored_after_success[OF assms] by blast
  have hit: "fst (create fB formDataB (Some key) clk w1) = Inr r
             \<and> fst (update fB identB formDataB (Some key) clk w1) = Inr r
             \<and> tables (snd (create fB formDataB (Some key) clk w1)) = tables w1
             \<and> tables (snd (update fB identB formDataB (Some key) clk w1)) = tables w1
             \<and> trace (snd (create fB formDataB (Some key) clk w1)) = trace w1
             \<and> trace (snd (update fB identB formDataB (Some key) clk w1)) = trace w1"
    if "now1 clk - timestamp e \<le> CACHE_TTL_MS \<and> now2 clk - timestamp e \<le> CACHE_TTL_MS" for clk
  proof -
    note cl = cacheLookup_hit[OF assms(1) e(1), of clk]
    have t: "truthy (result e)" using e by simp
    show ?thesis
      using that create_hit[OF cl t, of fB formDataB] update_hit[OF cl t, of fB identB formDataB] e(2)
      by simp
  qed
  show ?thesis
    using e ts hit by blast
qed

theorem cache_shared_by_all_factories_witness:
  "fst (update projectsAPI ''p1'' [(''title'', JStr ''Launch'')] (Some ''key-1'') (clock_at 2000)
          world_created) = Inr (JObj jane_created)
   \<and> fst (create projectsAPI [(''title'', JStr ''Launch'')] (Some ''key-1'') (clock_at 300000)
          world_created) = Inr (JObj jane_created)"
proof -
  have k: "''key-1'' \<noteq> []" by simp
  have r: "fst (create contactsAPI [(''name'', JStr ''Jane'')] (Some ''key-1'') (clock_at 1000)
                  world0) = Inr (JObj jane_created)" by code_simp
  have first: "create contactsAPI [(''name'', JStr ''Jane'')] (Some ''key-1'') (clock_at 1000) world0
                 = (Inr (JObj jane_created), world_created)
               \<or> update contactsAPI ''c1'' [(''name'', JStr ''Jane'')] (Some ''key-1'')
                    (clock_at 1000) world0 = (Inr (JObj jane_created), world_created)"
    unfolding world_created_def by (metis r prod.collapse)
  have miss: "\<not> truthy (fst (cacheLookup (Some ''key-1'') (clock_at 1000) world0))"
    by code_simp
  have c1: "now1 (clock_at 2000) = 2000 \<and> now2 (clock_at 2000) = 2000
            \<and> now1 (clock_at 300000) = 300000 \<and> now2 (clock_at 300000) = 300000
            \<and> now3 (clock_at 1000) = 1000"
    by (simp add: clock_at_def)
  obtain e :: cache_entry where ts: "timestamp e = now3 (clock_at 1000)"
    and hit: "\<And>clk. now1 clk - timestamp e \<le> CACHE_TTL_MS
                      \<and> now2 clk - timestamp e \<le> CACHE_TTL_MS \<Longrightarrow>
                fst (create projectsAPI [(''title'', JStr ''Launch'')] (Some ''key-1'') clk
                       world_created) = Inr (JObj jane_created)
                \<and> fst (update projectsAPI ''p1'' [(''title'', JStr ''Launch'')] (Some ''key-1'') clk
                       world_created) = Inr (JObj jane_created)"
    using cache_shared_by_all_factories[OF k first, of projectsAPI
            "[(''title'', JStr ''Launch'')]" "''p1''"] miss
    by blast
  have "now1 (clock_at 2000) - timestamp e \<le> CACHE_TTL_MS
        \<and> now2 (clock_at 2000) - timestamp e \<le> CACHE_TTL_MS"
    by (simp add: ts c1 CACHE_TTL_MS_def)
  moreover have "now1 (clock_at 300000) - timestamp e \<le> CACHE_TTL_MS
        \<and> now2 (clock_at 300000) - timestamp e \<le> CACHE_TTL_MS"
    by (simp add: ts c1 CACHE_TTL_MS_def)
  ultimately show ?thesis using hit by blast
qed

section \<open>Archive and unarchive\<close>












end
